theory Spec2Isabelle
  imports Main "HOL-Library.Sublist"
begin

section \<open>Exceptions and Python string primitives\<close>

text \<open>
  Every \<^verbatim>\<open>raise\<close> of the two modules is a value of \<open>exn\<close>; a function that may raise
  returns \<open>exn + 'a\<close> with \<open>Inl\<close> for the exception. \<open>RuntimeError\<close> stands for the
  class and its subclasses, the ones \<^verbatim>\<open>except RuntimeError\<close> catches. \<open>MissingOrbits\<close> is
  the \<^verbatim>\<open>Exception\<close> that \<^verbatim>\<open>download_eofs\<close> raises at its end; its three fields are the three
  values its message interpolates: \<^verbatim>\<open>len(dts) - len(orb_files)\<close>, \<^verbatim>\<open>dts\<close> and
  \<^verbatim>\<open>len(orb_files)\<close>. \<open>NetrcParseError\<close> is what \<^verbatim>\<open>netrc.netrc\<close> raises on a file it cannot
  read, and \<open>OtherException\<close> is any other exception an external library raises.
\<close>

datatype exn =
    RuntimeError string
  | ValueError string
  | IndexError
  | NameError string
  | NetrcParseError string
  | MissingOrbits int "string list" nat
  | OtherException string

fun isinstance_RuntimeError :: "exn \<Rightarrow> bool" where
  "isinstance_RuntimeError (RuntimeError _) = True"
| "isinstance_RuntimeError _ = False"

text \<open>\<^verbatim>\<open>xs[i]\<close> for \<open>i \<ge> 0\<close>: an index out of range raises \<^verbatim>\<open>IndexError\<close>.\<close>

definition getitem :: "'a list \<Rightarrow> nat \<Rightarrow> exn + 'a" where
  "getitem xs i = (if i < length xs then Inr (xs ! i) else Inl IndexError)"

text \<open>
  A list comprehension \<^verbatim>\<open>[g(x) for x in xs]\<close> whose body may raise: it evaluates left to
  right and the first exception leaves it.
\<close>

fun comprehension :: "('a \<Rightarrow> exn + 'b) \<Rightarrow> 'a list \<Rightarrow> exn + 'b list" where
  "comprehension g [] = Inr []"
| "comprehension g (x # xs) =
     (case g x of
        Inl e \<Rightarrow> Inl e
      | Inr y \<Rightarrow> (case comprehension g xs of Inl e \<Rightarrow> Inl e | Inr ys \<Rightarrow> Inr (y # ys)))"

text \<open>
  \<^verbatim>\<open>re.split(r'_+', s)\<close>: the fields between maximal runs of underscores. A run at the
  start or at the end of \<open>s\<close> gives an empty first or last field, and the empty string
  gives one empty field.
\<close>

lemma split_progress:
  assumes "dropWhile (\<lambda>c. c \<noteq> u) s \<noteq> []"
  shows "length (dropWhile (\<lambda>c. c = u) (dropWhile (\<lambda>c. c \<noteq> u) s)) < length s"
proof -
  obtain c cs where rest: "dropWhile (\<lambda>c. c \<noteq> u) s = c # cs"
    using assms by (cases "dropWhile (\<lambda>c. c \<noteq> u) s") auto
  have "c = u"
    using hd_dropWhile [of "\<lambda>c. c \<noteq> u" s] assms rest by simp
  then have "length (dropWhile (\<lambda>c. c = u) (c # cs)) \<le> length cs"
    by (simp add: length_dropWhile_le)
  also have "length cs < length (dropWhile (\<lambda>c. c \<noteq> u) s)"
    using rest by simp
  also have "\<dots> \<le> length s"
    by (rule length_dropWhile_le)
  finally show ?thesis using rest by simp
qed

function re_split_underscores :: "string \<Rightarrow> string list" where
  "re_split_underscores s =
     (let field = takeWhile (\<lambda>c. c \<noteq> CHR ''_'') s;
          rest = dropWhile (\<lambda>c. c \<noteq> CHR ''_'') s
      in if rest = [] then [field]
         else field # re_split_underscores (dropWhile (\<lambda>c. c = CHR ''_'') rest))"
  by pat_completeness auto
termination
  by (relation "measure length") (auto simp: split_progress)

declare re_split_underscores.simps [simp del]

section \<open>Identifier parsing (\<^verbatim>\<open>get_orbits_from_slc_ids\<close>, lines 58 to 60)\<close>

text \<open>
  The three comprehensions of \<^verbatim>\<open>get_orbits_from_slc_ids\<close> apply these to every identifier:
  \<^verbatim>\<open>slc_id[0:3]\<close> (a slice never raises), \<^verbatim>\<open>re.split(r'_+', slc_id)[4]\<close> and
  \<^verbatim>\<open>re.split(r'_+', slc_id)[5]\<close>.
\<close>

definition mission_of :: "string \<Rightarrow> string" where
  "mission_of slc_id = take 3 slc_id"

definition start_time_of :: "string \<Rightarrow> exn + string" where
  "start_time_of slc_id = getitem (re_split_underscores slc_id) 4"

definition stop_time_of :: "string \<Rightarrow> exn + string" where
  "stop_time_of slc_id = getitem (re_split_underscores slc_id) 5"

text \<open>
  The shape of an identifier, to state what the fields are: \<open>join_runs f rest\<close> is the field
  \<open>f\<close> followed, for every \<open>(n, g)\<close> of \<open>rest\<close>, by a run of \<open>n + 1\<close> underscores and the
  field \<open>g\<close>. \<open>fields_ok\<close> holds when no field contains an underscore and no field between
  two runs is empty (two runs around an empty field are one run).
\<close>

fun join_runs :: "string \<Rightarrow> (nat \<times> string) list \<Rightarrow> string" where
  "join_runs f [] = f"
| "join_runs f ((n, g) # rest) = f @ replicate (Suc n) CHR ''_'' @ join_runs g rest"

fun fields_ok :: "string \<Rightarrow> (nat \<times> string) list \<Rightarrow> bool" where
  "fields_ok f [] = (CHR ''_'' \<notin> set f)"
| "fields_ok f ((n, g) # rest) =
     (CHR ''_'' \<notin> set f \<and> (rest = [] \<or> g \<noteq> []) \<and> fields_ok g rest)"

section \<open>The credential store (\<^verbatim>\<open>ensure_orbit_credentials\<close>)\<close>

text \<open>
  The netrc file is its permission bits and its text; \<open>None\<close> of type \<open>netrc_file option\<close> is
  the file that does not exist. \<^verbatim>\<open>netrc.netrc(netrc_file)\<close> belongs to the standard library and
  differs between Python versions: it is a parameter of the model, a function from the text
  of the file to the exception it raises or to the object it builds, which holds the table
  of hosts in file order, each with the triple (login, account, password), and the macros.
  A field of a triple is \<open>None\<close> where Python holds \<^verbatim>\<open>None\<close>. Every call reads the file anew:
  what one call writes reaches the next call only through the parser.
\<close>

type_synonym authenticators = "string option \<times> string option \<times> string option"

record netrc =
  hosts :: "(string \<times> authenticators) list"
  macros :: "(string \<times> string list) list"

record netrc_file =
  mode :: nat
  content :: string

type_synonym netrc_parser = "string \<Rightarrow> exn + netrc"

type_synonym environ = "string \<rightharpoonup> string"

definition ESA_CDSE_HOST :: string where
  "ESA_CDSE_HOST = ''dataspace.copernicus.eu''"

definition missing_credentials_message :: string where
  "missing_credentials_message =
     ''Credentials are required for fetching orbit data from dataspace.copernicus.eu!''
     @ [CHR 0x0A]
     @ ''Either add your credentials to ~/.netrc or set the ESA_USERNAME and ESA_PASSWORD ''
     @ ''environment variables.''"

text \<open>
  \<^verbatim>\<open>str(netrc_credentials)\<close>, the text \<^verbatim>\<open>write_text\<close> writes (\<^verbatim>\<open>netrc.__repr__\<close> of CPython 3.8
  and later): the hosts, then the macros. An f-string renders \<^verbatim>\<open>None\<close> as the word \<^verbatim>\<open>None\<close>, the
  account line is written only for a truthy account, and nothing is quoted.
\<close>

fun format_field :: "string option \<Rightarrow> string" where
  "format_field None = ''None''"
| "format_field (Some v) = v"

fun truthy :: "string option \<Rightarrow> bool" where
  "truthy None = False"
| "truthy (Some v) = (v \<noteq> [])"

fun hosts_repr :: "(string \<times> authenticators) list \<Rightarrow> string" where
  "hosts_repr [] = []"
| "hosts_repr ((host, (login, account, password)) # rest) =
     ''machine '' @ host @ [CHR 0x0A, CHR 0x09] @ ''login '' @ format_field login @ [CHR 0x0A]
     @ (if truthy account then [CHR 0x09] @ ''account '' @ format_field account @ [CHR 0x0A] else [])
     @ [CHR 0x09] @ ''password '' @ format_field password @ [CHR 0x0A]
     @ hosts_repr rest"

fun macros_repr :: "(string \<times> string list) list \<Rightarrow> string" where
  "macros_repr [] = []"
| "macros_repr ((macro, lines) # rest) =
     ''macdef '' @ macro @ [CHR 0x0A] @ concat lines @ [CHR 0x0A] @ macros_repr rest"

definition netrc_repr :: "netrc \<Rightarrow> string" where
  "netrc_repr n = hosts_repr (hosts n) @ macros_repr (macros n)"

text \<open>
  \<^verbatim>\<open>ensure_orbit_credentials\<close> returns \<^verbatim>\<open>None\<close> when the file needed no update and the number of
  characters written when it did; the model returns this value (or the exception) with the
  file as the call leaves it. A missing file is created empty with mode \<^verbatim>\<open>0o600\<close> (decimal 384)
  before anything else, so it exists afterwards also when the call raises. Line 45 adds the
  record to the object in memory; line 46 replaces the text of the file by the rendering of
  that object.
\<close>

definition ensure_orbit_credentials ::
  "netrc_parser \<Rightarrow> environ \<Rightarrow> netrc_file option \<Rightarrow> (exn + nat option) \<times> netrc_file option" where
  "ensure_orbit_credentials parse env fs =
     (let file = (case fs of None \<Rightarrow> \<lparr>mode = 384, content = []\<rparr> | Some f \<Rightarrow> f)
      in case parse (content file) of
           Inl e \<Rightarrow> (Inl e, Some file)
         | Inr netrc_credentials \<Rightarrow>
             if ESA_CDSE_HOST \<in> set (map fst (hosts netrc_credentials))
             then (Inr None, Some file)
             else
               let username = env ''ESA_USERNAME'';
                   password = env ''ESA_PASSWORD''
               in if username = None \<and> password = None
                  then (Inl (ValueError missing_credentials_message), Some file)
                  else
                    let netrc_credentials' =
                          netrc_credentials\<lparr>hosts := hosts netrc_credentials
                            @ [(ESA_CDSE_HOST, (username, None, password))]\<rparr>;
                        text = netrc_repr netrc_credentials'
                    in (Inr (Some (length text)), Some (file\<lparr>content := text\<rparr>)))"

text \<open>
  The parser of the examples: what \<^verbatim>\<open>netrc.netrc\<close> of CPython 3.11 reads from the empty file and
  from a file with one record for the host (an account that is not given reads as the empty
  string). The examples read no other file.
\<close>

definition parse_example :: netrc_parser where
  "parse_example text =
     (if text = [] then Inr \<lparr>hosts = [], macros = []\<rparr>
      else if text = ''machine dataspace.copernicus.eu'' @ [CHR 0x0A, CHR 0x09] @ ''login me''
                       @ [CHR 0x0A, CHR 0x09] @ ''password pw'' @ [CHR 0x0A]
      then Inr \<lparr>hosts = [(''dataspace.copernicus.eu'', (Some ''me'', Some [], Some ''pw''))],
                macros = []\<rparr>
      else Inl (NetrcParseError ''not a file of the examples''))"

section \<open>Orbit download with fallback (\<^verbatim>\<open>download_eofs\<close>)\<close>

text \<open>
  \<^verbatim>\<open>eof.download.download_eofs\<close> is an external library: it is a parameter of the model, a function
  of the four arguments the code passes (the time tokens, the missions, \<^verbatim>\<open>save_dir\<close> and
  \<^verbatim>\<open>force_asf\<close>) that raises or returns a list of paths or a single path. Every call is recorded
  as a \<open>request\<close>, and every \<^verbatim>\<open>logger.error\<close> by its message.
\<close>

datatype orbit_result = PathList "string list" | SinglePath string

datatype request = Request "string list" "string list" string bool

type_synonym eof_download = "string list \<Rightarrow> string list \<Rightarrow> string \<Rightarrow> bool \<Rightarrow> exn + orbit_result"

record downloads =
  orb_files :: "string list"
  requests :: "request list"
  errors_logged :: "string list"

definition no_downloads :: downloads where
  "no_downloads = \<lparr>orb_files = [], requests = [], errors_logged = []\<rparr>"

text \<open>\<^verbatim>\<open>orb_file[0] if isinstance(orb_file, list) else orb_file\<close>\<close>

definition first_path :: "orbit_result \<Rightarrow> exn + string" where
  "first_path r = (case r of PathList ps \<Rightarrow> getitem ps 0 | SinglePath p \<Rightarrow> Inr p)"

text \<open>
  One attempt at one provider: the call and the selection of the first path, the two
  statements that the \<^verbatim>\<open>try\<close> block and the \<^verbatim>\<open>except\<close> block both run. The time tokens that
  \<^verbatim>\<open>get_orbits_from_slc_ids\<close> passes are strings, so \<^verbatim>\<open>dt\<close> and \<^verbatim>\<open>mission\<close> are each wrapped in a
  one-element list.
\<close>

definition attempt :: "eof_download \<Rightarrow> string \<Rightarrow> string \<Rightarrow> string \<Rightarrow> bool \<Rightarrow> exn + string" where
  "attempt eof save_dir dt mission asf =
     (case eof [dt] [mission] save_dir asf of Inl e \<Rightarrow> Inl e | Inr r \<Rightarrow> first_path r)"

text \<open>
  The body of the loop. The bare \<^verbatim>\<open>except:\<close> catches whatever the first attempt raises,
  the \<^verbatim>\<open>IndexError\<close> of an empty result included; nothing catches what the second raises.
\<close>

definition download_pair ::
  "eof_download \<Rightarrow> string \<Rightarrow> string \<times> string \<Rightarrow> downloads \<Rightarrow> exn option \<times> downloads" where
  "download_pair eof save_dir p s =
     (case p of (dt, mission) \<Rightarrow>
        let s1 = s\<lparr>requests := requests s @ [Request [dt] [mission] save_dir True]\<rparr>
        in case attempt eof save_dir dt mission True of
             Inr orb_file \<Rightarrow> (None, s1\<lparr>orb_files := orb_files s1 @ [orb_file]\<rparr>)
           | Inl _ \<Rightarrow>
               let s2 = s1\<lparr>errors_logged := errors_logged s1
                             @ [''Could not download orbit from ASF, trying ESA...''],
                           requests := requests s1 @ [Request [dt] [mission] save_dir False]\<rparr>
               in case attempt eof save_dir dt mission False of
                    Inr orb_file \<Rightarrow> (None, s2\<lparr>orb_files := orb_files s2 @ [orb_file]\<rparr>)
                  | Inl e \<Rightarrow> (Some e, s2))"

fun download_loop ::
  "eof_download \<Rightarrow> string \<Rightarrow> (string \<times> string) list \<Rightarrow> downloads \<Rightarrow> exn option \<times> downloads" where
  "download_loop eof save_dir [] s = (None, s)"
| "download_loop eof save_dir (p # ps) s =
     (case download_pair eof save_dir p s of
        (Some e, s') \<Rightarrow> (Some e, s')
      | (None, s') \<Rightarrow> download_loop eof save_dir ps s')"

definition download_eofs ::
  "eof_download \<Rightarrow> string list \<Rightarrow> string list \<Rightarrow> string \<Rightarrow> (exn + string list) \<times> downloads" where
  "download_eofs eof dts missions save_dir =
     (case download_loop eof save_dir (zip dts missions) no_downloads of
        (Some e, s) \<Rightarrow> (Inl e, s)
      | (None, s) \<Rightarrow>
          if \<not> length (orb_files s) = length dts
          then (Inl (MissingOrbits (int (length dts) - int (length (orb_files s))) dts
                      (length (orb_files s))), s)
          else (Inr (orb_files s), s))"

text \<open>
  What the loop amounts to, for stating its properties. \<open>resolve_pair\<close> is the path one
  pair ends with, or the exception that leaves the loop at that pair: the first attempt's
  path, else the outcome of the second attempt. \<open>pair_requests\<close> are the calls of the
  external library that one pair makes.
\<close>

definition resolve_pair :: "eof_download \<Rightarrow> string \<Rightarrow> string \<times> string \<Rightarrow> exn + string" where
  "resolve_pair eof save_dir p =
     (case attempt eof save_dir (fst p) (snd p) True of
        Inr orb_file \<Rightarrow> Inr orb_file
      | Inl _ \<Rightarrow> attempt eof save_dir (fst p) (snd p) False)"

definition pair_requests :: "eof_download \<Rightarrow> string \<Rightarrow> string \<times> string \<Rightarrow> request list" where
  "pair_requests eof save_dir p =
     (case attempt eof save_dir (fst p) (snd p) True of
        Inr _ \<Rightarrow> [Request [fst p] [snd p] save_dir True]
      | Inl _ \<Rightarrow> [Request [fst p] [snd p] save_dir True, Request [fst p] [snd p] save_dir False])"


text \<open>
  A provider for the examples: every strict request fails, and the other provider serves
  every time token but \<^verbatim>\<open>bad\<close>.
\<close>

definition eof_example :: eof_download where
  "eof_example dts missions save_dir asf =
     (if asf then Inl (OtherException ''ASF unreachable'')
      else if dts = [''bad''] then Inl (OtherException ''ESA has no orbit'')
      else Inr (PathList (map (\<lambda>dt. save_dir @ ''/'' @ dt @ ''.EOF'') dts)))"

section \<open>Orbit resolution (\<^verbatim>\<open>get_orbits_from_slc_ids\<close>)\<close>

definition get_orbits_from_slc_ids ::
  "netrc_parser \<Rightarrow> environ \<Rightarrow> eof_download \<Rightarrow> netrc_file option \<Rightarrow> string list \<Rightarrow> string
     \<Rightarrow> (exn + string list) \<times> netrc_file option \<times> downloads" where
  "get_orbits_from_slc_ids parse env eof fs slc_ids directory =
     (case ensure_orbit_credentials parse env fs of
        (Inl e, fs') \<Rightarrow> (Inl e, fs', no_downloads)
      | (Inr _, fs') \<Rightarrow>
          let missions = map mission_of slc_ids
          in case comprehension start_time_of slc_ids of
               Inl e \<Rightarrow> (Inl e, fs', no_downloads)
             | Inr start_times \<Rightarrow>
                 (case comprehension stop_time_of slc_ids of
                    Inl e \<Rightarrow> (Inl e, fs', no_downloads)
                  | Inr stop_times \<Rightarrow>
                      (case download_eofs eof (start_times @ stop_times) (missions @ missions)
                              directory of
                         (r, d) \<Rightarrow> (r, fs', d))))"

section \<open>File names: \<^verbatim>\<open>str.replace\<close>, \<^verbatim>\<open>str.endswith\<close>, \<^verbatim>\<open>os.path.splitext\<close>\<close>

text \<open>
  \<^verbatim>\<open>s.replace(old, new)\<close> scans \<open>s\<close> from the left and replaces every occurrence of \<open>old\<close> that
  does not overlap an earlier one. An empty \<open>old\<close> matches before every character and at
  the end.
\<close>

function py_replace :: "string \<Rightarrow> string \<Rightarrow> string \<Rightarrow> string" where
  "py_replace old new [] = (if old = [] then new else [])"
| "py_replace old new (c # cs) =
     (if old = [] then new @ c # py_replace old new cs
      else if prefix old (c # cs) then new @ py_replace old new (drop (length old) (c # cs))
      else c # py_replace old new cs)"
  by pat_completeness auto
termination
  by (relation "measure (\<lambda>(old, new, s). length s)") auto

definition endswith :: "string \<Rightarrow> string \<Rightarrow> bool" where
  "endswith s suf = suffix suf s"

text \<open>\<^verbatim>\<open>p.rfind(c)\<close> for a single character: the last index of \<open>c\<close>, or \<open>-1\<close>.\<close>

definition rfind :: "string \<Rightarrow> char \<Rightarrow> int" where
  "rfind p c =
     (case filter (\<lambda>i. p ! i = c) (rev [0..<length p]) of [] \<Rightarrow> - 1 | i # _ \<Rightarrow> int i)"

text \<open>
  \<^verbatim>\<open>os.path.splitext\<close> of \<^verbatim>\<open>posixpath\<close> (\<^verbatim>\<open>genericpath._splitext\<close> with the separator \<^verbatim>\<open>/\<close>): the
  extension starts at the last dot, if that dot comes after the last separator and some
  character between the separator and the dot is not a dot itself; its \<^verbatim>\<open>while\<close> loop looks
  for that character.
\<close>

definition splitext :: "string \<Rightarrow> string \<times> string" where
  "splitext p =
     (let sepIndex = rfind p CHR ''/'';
          dotIndex = rfind p CHR ''.''
      in if dotIndex > sepIndex
            \<and> list_ex (\<lambda>filenameIndex. p ! filenameIndex \<noteq> CHR ''.'')
                 [nat (sepIndex + 1)..<nat dotIndex]
         then (take (nat dotIndex) p, drop (nat dotIndex) p)
         else (p, []))"

section \<open>The epoch loop of \<^verbatim>\<open>calcDelays\<close>\<close>

text \<open>
  The loop runs on the parameter structure that \<^verbatim>\<open>checkArgs\<close> returns; the fields below are
  the ones it reads. The line-of-sight object is the pair of answers of its two predicates,
  the area of interest its \<^verbatim>\<open>type()\<close>, its \<^verbatim>\<open>bounds()\<close> and its \<^verbatim>\<open>add_buffer\<close>. The numbers that
  the loop only hands on to the engines (bounds, \<^verbatim>\<open>zref\<close>, height levels, cube spacing) are
  integers here.
\<close>

datatype datetime = Datetime nat nat nat nat nat nat

type_synonym bounds = "int list"

type_synonym dataset = "int list"

record los =
  is_Projected :: bool
  ray_trace :: bool

record aoi =
  aoi_type :: string
  bounds :: bounds
  add_buffer :: "nat \<Rightarrow> bounds"

record params =
  date_list :: "datetime list"
  wetFilenames :: "string list"
  hydroFilenames :: "string list"
  los :: los
  aoi :: aoi
  weather_model :: string
  weather_model_directory :: string
  zref :: int
  verbose :: bool
  download_only :: bool
  height_levels :: "int list"
  output_projection :: string
  look_dir :: string
  cube_spacing_in_m :: "int option"
  raster_format :: string

text \<open>
  The two engines and the two writers are external: they are parameters, functions of the
  arguments the loop passes. An engine raises or returns; a writer raises or completes.
  \<open>NetCDF\<close> is \<^verbatim>\<open>ds.to_netcdf(out_filename, mode="w")\<close> and \<open>H5NetCDF\<close> is
  \<^verbatim>\<open>ds.to_netcdf(out_filename, engine="h5netcdf", invalid_netcdf=True)\<close>.
\<close>

datatype cube_writer = NetCDF | H5NetCDF

record engines =
  prepareWeatherModel ::
    "string \<Rightarrow> datetime \<Rightarrow> bounds \<Rightarrow> string \<Rightarrow> int \<Rightarrow> bool \<Rightarrow> bool \<Rightarrow> exn + string"
  tropo_delay ::
    "datetime \<Rightarrow> string \<Rightarrow> aoi \<Rightarrow> los \<Rightarrow> int list \<Rightarrow> string \<Rightarrow> string \<Rightarrow> int option
       \<Rightarrow> exn + (dataset \<times> dataset option)"
  to_netcdf :: "dataset \<Rightarrow> string \<Rightarrow> cube_writer \<Rightarrow> exn option"
  writeDelays :: "aoi \<Rightarrow> dataset \<Rightarrow> dataset \<Rightarrow> string \<Rightarrow> string \<Rightarrow> string \<Rightarrow> exn option"

text \<open>
  What a run leaves behind: the calls it made to the engines and the writers, the records it
  logged, and \<^verbatim>\<open>delay_dct\<close>. \<open>LogDateFailed t\<close> is \<^verbatim>\<open>logger.exception("Date %s failed", t)\<close>;
  \<open>LogDebugDate t\<close> is the debug record that carries \<^verbatim>\<open>t.strftime('%Y%m%d')\<close>; \<open>LogInfo\<close>
  holds a format string and its argument.
\<close>

datatype call =
    PrepareWeatherModel string datetime bounds string int bool bool
  | TropoDelay datetime string
  | ToNetcdf string cube_writer
  | WriteDelays string string string

datatype log_record =
    LogDebug string
  | LogDebugDate datetime
  | LogDateFailed datetime
  | LogInfo string string

record batch =
  calls :: "call list"
  logged :: "log_record list"
  delay_dct :: "datetime \<rightharpoonup> string \<times> string"

definition empty_batch :: batch where
  "empty_batch = \<lparr>calls = [], logged = [], delay_dct = Map.empty\<rparr>"

text \<open>Lines 190 to 193: the bounds handed to the weather model engine.\<close>

definition ll_bounds_of :: "params \<Rightarrow> bounds" where
  "ll_bounds_of p = (if ray_trace (los p) then add_buffer (aoi p) 1 else bounds (aoi p))"

text \<open>Lines 234 to 241: the two output names by line-of-sight mode.\<close>

definition los_filenames :: "los \<Rightarrow> string \<Rightarrow> string \<Rightarrow> string \<times> string" where
  "los_filenames l w f =
     (if is_Projected l then (py_replace ''_ztd'' ''_std'' w, py_replace ''_ztd'' ''_std'' f)
      else if ray_trace l then (py_replace ''_std'' ''_ray'' w, py_replace ''_std'' ''_ray'' f)
      else (w, f))"

text \<open>Lines 246 to 250: the name of the cube file.\<close>

definition cube_filename :: "string \<Rightarrow> string" where
  "cube_filename out_filename =
     (let ext = snd (splitext out_filename);
          out_filename' =
            (if ext \<notin> set [''.nc'', ''.h5''] then fst (splitext out_filename) @ ''.nc''
             else out_filename)
      in py_replace ''wet'' ''tropo'' out_filename')"

text \<open>
  Lines 252 to 256: the cube is written by the writer its name selects. An exception of
  the writer leaves the function before the info record is logged.
\<close>

definition write_cube :: "engines \<Rightarrow> dataset \<Rightarrow> string \<Rightarrow> batch \<Rightarrow> exn option \<times> batch" where
  "write_cube eng ds out_filename s =
     (let (raised, s1) =
            (if endswith out_filename ''.nc''
             then (to_netcdf eng ds out_filename NetCDF,
                   s\<lparr>calls := calls s @ [ToNetcdf out_filename NetCDF]\<rparr>)
             else if endswith out_filename ''.h5''
             then (to_netcdf eng ds out_filename H5NetCDF,
                   s\<lparr>calls := calls s @ [ToNetcdf out_filename H5NetCDF]\<rparr>)
             else (None, s))
      in case raised of
           Some e \<Rightarrow> (Some e, s1)
         | None \<Rightarrow>
             (None, s1\<lparr>logged := logged s1 @ [LogInfo ''Wrote delays to: %s'' out_filename]\<rparr>))"

text \<open>Lines 259 to 267: separate wet and hydrostatic delays; returns the final wet name too.\<close>

definition write_pair ::
  "engines \<Rightarrow> params \<Rightarrow> dataset \<Rightarrow> dataset \<Rightarrow> string \<Rightarrow> string \<Rightarrow> batch
     \<Rightarrow> exn option \<times> string \<times> batch" where
  "write_pair eng p wet_delay hydro_delay out_filename f s =
     (let out_filename' =
            (if aoi_type (aoi p) = ''station_file'' then fst (splitext out_filename) @ ''.csv''
             else out_filename);
          (raised, s1) =
            (if aoi_type (aoi p) \<in> set [''station_file'', ''radar_rasters'', ''geocoded_file'']
             then
               let fmt = (if \<not> raster_format p = ''nc'' then raster_format p else ''GTiff'')
               in (writeDelays eng (aoi p) wet_delay hydro_delay out_filename' f fmt,
                   s\<lparr>calls := calls s @ [WriteDelays out_filename' f fmt]\<rparr>)
             else (None, s))
      in case raised of
           Some e \<Rightarrow> (Some e, out_filename', s1)
         | None \<Rightarrow>
             (None, out_filename',
              s1\<lparr>logged := logged s1 @ [LogInfo ''Wrote wet delays to: %s'' out_filename',
                                        LogInfo ''Wrote hydro delays to: %s'' f]\<rparr>))"

text \<open>
  Lines 234 to 271, the output router: the names, the writer, and the entry of \<^verbatim>\<open>delay_dct\<close>,
  which is stored only when no writer raised.
\<close>

definition route ::
  "engines \<Rightarrow> params \<Rightarrow> datetime \<Rightarrow> string \<Rightarrow> string \<Rightarrow> dataset \<Rightarrow> dataset option \<Rightarrow> batch
     \<Rightarrow> exn option \<times> batch" where
  "route eng p t w f wet_delay hydro_delay s =
     (let (out_filename, f') = los_filenames (los p) w f
      in case hydro_delay of
           None \<Rightarrow>
             (let out_filename' = cube_filename out_filename
              in case write_cube eng wet_delay out_filename' s of
                   (Some e, s1) \<Rightarrow> (Some e, s1)
                 | (None, s1) \<Rightarrow>
                     (None, s1\<lparr>delay_dct := (delay_dct s1)(t \<mapsto> (out_filename', f'))\<rparr>))
         | Some hydro \<Rightarrow>
             (case write_pair eng p wet_delay hydro out_filename f' s of
                (Some e, out_filename', s1) \<Rightarrow> (Some e, s1)
              | (None, out_filename', s1) \<Rightarrow>
                  (None, s1\<lparr>delay_dct := (delay_dct s1)(t \<mapsto> (out_filename', f'))\<rparr>)))"

text \<open>
  Lines 186 to 271, the body of the loop for one job \<open>(t, w, f)\<close>. \<open>None\<close> is the end of the
  iteration, by \<^verbatim>\<open>continue\<close> or by reaching line 271; \<open>Some e\<close> is an exception that nothing in
  the loop catches. \<^verbatim>\<open>except RuntimeError\<close> catches the instances of that class only.
\<close>

definition process_job ::
  "engines \<Rightarrow> params \<Rightarrow> bool \<Rightarrow> datetime \<times> string \<times> string \<Rightarrow> batch \<Rightarrow> exn option \<times> batch" where
  "process_job eng p dl_only job s =
     (case job of (t, w, f) \<Rightarrow>
        let ll_bounds = ll_bounds_of p;
            s1 = s\<lparr>logged := logged s
                     @ [LogDebug ''Starting to run the weather model calculation'',
                        LogDebugDate t,
                        LogDebug ''Beginning weather model pre-processing''],
                   calls := calls s
                     @ [PrepareWeatherModel (weather_model p) t ll_bounds
                          (weather_model_directory p) (zref p) dl_only (verbose p)]\<rparr>
        in case prepareWeatherModel eng (weather_model p) t ll_bounds
                  (weather_model_directory p) (zref p) dl_only (verbose p) of
             Inl e \<Rightarrow>
               if isinstance_RuntimeError e
               then (None, s1\<lparr>logged := logged s1 @ [LogDateFailed t]\<rparr>)
               else (Some e, s1)
           | Inr weather_model_file \<Rightarrow>
               if dl_only then (None, s1)
               else
                 let s2 = s1\<lparr>calls := calls s1 @ [TropoDelay t weather_model_file]\<rparr>
                 in case tropo_delay eng t weather_model_file (aoi p) (los p) (height_levels p)
                           (output_projection p) (look_dir p) (cube_spacing_in_m p) of
                      Inl e \<Rightarrow>
                        if isinstance_RuntimeError e
                        then (None, s2\<lparr>logged := logged s2 @ [LogDateFailed t]\<rparr>)
                        else (Some e, s2)
                    | Inr (wet_delay, hydro_delay) \<Rightarrow> route eng p t w f wet_delay hydro_delay s2)"

fun run_jobs ::
  "engines \<Rightarrow> params \<Rightarrow> bool \<Rightarrow> (datetime \<times> string \<times> string) list \<Rightarrow> batch
     \<Rightarrow> exn option \<times> batch" where
  "run_jobs eng p dl_only [] s = (None, s)"
| "run_jobs eng p dl_only (job # jobs) s =
     (case process_job eng p dl_only job s of
        (Some e, s') \<Rightarrow> (Some e, s')
      | (None, s') \<Rightarrow> run_jobs eng p dl_only jobs s')"

text \<open>
  \<^verbatim>\<open>zip(params['date_list'], params['wetFilenames'], params['hydroFilenames'])\<close>: the jobs, as
  many as the shortest of the three lists has.
\<close>

definition jobs_of :: "params \<Rightarrow> (datetime \<times> string \<times> string) list" where
  "jobs_of p = zip (date_list p) (zip (wetFilenames p) (hydroFilenames p))"

text \<open>
  Lines 179 to 273: the loop from the empty \<^verbatim>\<open>delay_dct\<close> to \<^verbatim>\<open>return delay_dct\<close>. The result is
  the returned mapping, or the exception that left the loop, with what the run left behind.
\<close>

definition calcDelays_loop :: "engines \<Rightarrow> params \<Rightarrow> bool \<Rightarrow> (exn + (datetime \<rightharpoonup> string \<times> string)) \<times> batch" where
  "calcDelays_loop eng p dl_only =
     (case run_jobs eng p dl_only (jobs_of p) empty_batch of
        (Some e, s) \<Rightarrow> (Inl e, s)
      | (None, s) \<Rightarrow> (Inr (delay_dct s), s))"

text \<open>
  Lines 174 to 273: \<^verbatim>\<open>calcDelays\<close> from the checked parameters on; \<open>args_download_only\<close> is the
  command line's \<^verbatim>\<open>--download_only\<close>. The module imports \<^verbatim>\<open>logger\<close> but never \<^verbatim>\<open>logging\<close>, so
  line 177, which runs when \<^verbatim>\<open>params.verbose\<close> is false, raises \<^verbatim>\<open>NameError\<close> before the loop.
\<close>

definition dl_only_of :: "params \<Rightarrow> bool \<Rightarrow> bool" where
  "dl_only_of p args_download_only =
     (if download_only p \<or> args_download_only then True else False)"

definition calcDelays :: "engines \<Rightarrow> params \<Rightarrow> bool \<Rightarrow> (exn + (datetime \<rightharpoonup> string \<times> string)) \<times> batch" where
  "calcDelays eng p args_download_only =
     (let dl_only = dl_only_of p args_download_only
      in if \<not> verbose p then (Inl (NameError ''logging''), empty_batch)
         else calcDelays_loop eng p dl_only)"

section \<open>What the loop amounts to\<close>

text \<open>
  Names for the parts of the loop body, to state its properties: the weather model call of
  a job and its outcome, the delay engine's outcome, the three debug records, the names
  line 271 stores, the entry a job adds to \<^verbatim>\<open>delay_dct\<close> (none when an engine fails or the run
  only downloads), whether a job fails by a runtime failure of an engine, and the exception,
  if any, that leaves the loop at a job.
\<close>

definition wm_result :: "engines \<Rightarrow> params \<Rightarrow> bool \<Rightarrow> datetime \<Rightarrow> exn + string" where
  "wm_result eng p dl_only t =
     prepareWeatherModel eng (weather_model p) t (ll_bounds_of p) (weather_model_directory p)
       (zref p) dl_only (verbose p)"

definition wm_call :: "params \<Rightarrow> bool \<Rightarrow> datetime \<Rightarrow> call" where
  "wm_call p dl_only t =
     PrepareWeatherModel (weather_model p) t (ll_bounds_of p) (weather_model_directory p)
       (zref p) dl_only (verbose p)"

definition delay_result :: "engines \<Rightarrow> params \<Rightarrow> datetime \<Rightarrow> string \<Rightarrow> exn + (dataset \<times> dataset option)" where
  "delay_result eng p t weather_model_file =
     tropo_delay eng t weather_model_file (aoi p) (los p) (height_levels p)
       (output_projection p) (look_dir p) (cube_spacing_in_m p)"

definition job_debug :: "datetime \<Rightarrow> log_record list" where
  "job_debug t =
     [LogDebug ''Starting to run the weather model calculation'', LogDebugDate t,
      LogDebug ''Beginning weather model pre-processing'']"

definition final_names :: "params \<Rightarrow> string \<Rightarrow> string \<Rightarrow> dataset option \<Rightarrow> string \<times> string" where
  "final_names p w f hydro_delay =
     (case hydro_delay of
        None \<Rightarrow> (cube_filename (fst (los_filenames (los p) w f)), snd (los_filenames (los p) w f))
      | Some _ \<Rightarrow>
          (if aoi_type (aoi p) = ''station_file''
           then fst (splitext (fst (los_filenames (los p) w f))) @ ''.csv''
           else fst (los_filenames (los p) w f),
           snd (los_filenames (los p) w f)))"

definition job_entry ::
  "engines \<Rightarrow> params \<Rightarrow> bool \<Rightarrow> datetime \<times> string \<times> string \<Rightarrow> (datetime \<times> string \<times> string) option" where
  "job_entry eng p dl_only job =
     (case job of (t, w, f) \<Rightarrow>
        (case wm_result eng p dl_only t of
           Inl _ \<Rightarrow> None
         | Inr weather_model_file \<Rightarrow>
             if dl_only then None
             else (case delay_result eng p t weather_model_file of
                     Inl _ \<Rightarrow> None
                   | Inr (wet_delay, hydro_delay) \<Rightarrow> Some (t, final_names p w f hydro_delay))))"

definition runtime_failure :: "engines \<Rightarrow> params \<Rightarrow> bool \<Rightarrow> datetime \<Rightarrow> bool" where
  "runtime_failure eng p dl_only t =
     (case wm_result eng p dl_only t of
        Inl e \<Rightarrow> isinstance_RuntimeError e
      | Inr weather_model_file \<Rightarrow>
          \<not> dl_only \<and>
          (case delay_result eng p t weather_model_file of
             Inl e \<Rightarrow> isinstance_RuntimeError e
           | Inr _ \<Rightarrow> False))"

definition job_raises :: "engines \<Rightarrow> params \<Rightarrow> bool \<Rightarrow> datetime \<times> string \<times> string \<Rightarrow> exn option" where
  "job_raises eng p dl_only job = fst (process_job eng p dl_only job empty_batch)"

fun is_wm_call :: "call \<Rightarrow> bool" where
  "is_wm_call (PrepareWeatherModel _ _ _ _ _ _ _) = True"
| "is_wm_call _ = False"


text \<open>
  A batch for the examples: three dates, zenith delays over a bounding box; the weather
  model engine fails for the second date with a \<^verbatim>\<open>RuntimeError\<close>, the delay engine returns a
  cube without a hydrostatic part, and the writers never raise.
\<close>

definition example_params :: params where
  "example_params =
     \<lparr>date_list = [Datetime 2020 3 5 0 0 0, Datetime 2020 3 17 0 0 0, Datetime 2020 3 29 0 0 0],
      wetFilenames = [''20200305_wet_ztd.nc'', ''20200317_wet_ztd.nc'', ''20200329_wet_ztd.nc''],
      hydroFilenames = [''20200305_hydro_ztd.nc'', ''20200317_hydro_ztd.nc'', ''20200329_hydro_ztd.nc''],
      los = \<lparr>is_Projected = False, ray_trace = False\<rparr>,
      aoi = \<lparr>aoi_type = ''bounding_box'', bounds = [30, 32, - 118, - 116],
             add_buffer = (\<lambda>buffer. [29, 33, - 119, - 115])\<rparr>,
      weather_model = ''GMAO'', weather_model_directory = ''weather_files'', zref = 15000,
      verbose = True, download_only = False, height_levels = [0, 100, 500, 1000],
      output_projection = ''EPSG:4326'', look_dir = ''right'', cube_spacing_in_m = None,
      raster_format = ''GTiff''\<rparr>"

definition example_engines :: engines where
  "example_engines =
     \<lparr>prepareWeatherModel = (\<lambda>model t ll_bounds wmLoc zr dl makePlots.
         if t = Datetime 2020 3 17 0 0 0 then Inl (RuntimeError ''no weather model data'')
         else Inr (wmLoc @ ''/'' @ model @ ''.nc'')),
      tropo_delay = (\<lambda>t file a l hs proj look spacing. Inr ([1, 2, 3], None)),
      to_netcdf = (\<lambda>ds out_filename writer. None),
      writeDelays = (\<lambda>a wet hydro out_filename f fmt. None)\<rparr>"


section \<open>Identifier parsing: the fields of an identifier\<close>

lemma takeWhile_upto: "u \<notin> set f \<Longrightarrow> takeWhile (\<lambda>c. c \<noteq> u) (f @ u # r) = f"
  by (induction f) auto

lemma dropWhile_upto: "u \<notin> set f \<Longrightarrow> dropWhile (\<lambda>c. c \<noteq> u) (f @ u # r) = u # r"
  by (induction f) auto

lemma split_no_underscore: "CHR ''_'' \<notin> set f \<Longrightarrow> re_split_underscores f = [f]"
  by (subst re_split_underscores.simps) (simp add: Let_def)

lemma join_runs_no_leading_underscore:
  "fields_ok g rest \<Longrightarrow> rest = [] \<or> g \<noteq> [] \<Longrightarrow>
     dropWhile (\<lambda>c. c = CHR ''_'') (join_runs g rest) = join_runs g rest"
  by (cases rest; cases g) (auto simp: dropWhile_eq_self_iff)

lemma split_step:
  assumes "CHR ''_'' \<notin> set f" and "dropWhile (\<lambda>c. c = CHR ''_'') r = r"
  shows "re_split_underscores (f @ replicate (Suc n) CHR ''_'' @ r) = f # re_split_underscores r"
proof -
  let ?s = "f @ replicate (Suc n) CHR ''_'' @ r"
  have tw: "takeWhile (\<lambda>c. c \<noteq> CHR ''_'') ?s = f"
    using assms(1) by (simp add: takeWhile_upto)
  have dw: "dropWhile (\<lambda>c. c \<noteq> CHR ''_'') ?s = replicate (Suc n) CHR ''_'' @ r"
    using assms(1) by (simp add: dropWhile_upto)
  have dd: "dropWhile (\<lambda>c. c = CHR ''_'') (replicate (Suc n) CHR ''_'' @ r) = r"
    using assms(2) by (simp add: dropWhile_append)
  have "re_split_underscores ?s =
          f # re_split_underscores
                (dropWhile (\<lambda>c. c = CHR ''_'') (dropWhile (\<lambda>c. c \<noteq> CHR ''_'') ?s))"
    by (subst re_split_underscores.simps) (simp only: Let_def tw dw, simp)
  then show ?thesis by (simp only: dw dd)
qed

lemma split_join_runs:
  "fields_ok f rest \<Longrightarrow> re_split_underscores (join_runs f rest) = f # map snd rest"
proof (induction rest arbitrary: f)
  case Nil
  then show ?case by (simp add: split_no_underscore)
next
  case (Cons a rest)
  obtain n g where a: "a = (n, g)" by (cases a)
  from Cons.prems a have f: "CHR ''_'' \<notin> set f" and g: "rest = [] \<or> g \<noteq> []"
    and ok: "fields_ok g rest"
    by simp_all
  have "re_split_underscores (f @ replicate (Suc n) CHR ''_'' @ join_runs g rest) =
          f # re_split_underscores (join_runs g rest)"
    by (rule split_step [OF f join_runs_no_leading_underscore [OF ok g]])
  then show ?case using Cons.IH [OF ok] a by simp
qed

text \<open>
  Claim C7. The mission code of an identifier is its first three characters. For every
  identifier made of at least six underscore-free fields separated by runs of one or more
  underscores, the start time token is the fifth field and the stop time token the sixth.
  The identifier \<^verbatim>\<open>S1A_IW_SLC__1SDV_20200101T000000_20200101T000030_...\<close> gives the mission
  \<^verbatim>\<open>S1A\<close>, the start token \<^verbatim>\<open>20200101T000000\<close> and the stop token \<^verbatim>\<open>20200101T000030\<close>.
\<close>

theorem identifier_parsing:
  "mission_of slc_id = take 3 slc_id
   \<and> (fields_ok f rest \<and> 5 \<le> length rest \<longrightarrow>
        start_time_of (join_runs f rest) = Inr (snd (rest ! 3))
        \<and> stop_time_of (join_runs f rest) = Inr (snd (rest ! 4)))
   \<and> mission_of ''S1A_IW_SLC__1SDV_20200101T000000_20200101T000030_...'' = ''S1A''
   \<and> start_time_of ''S1A_IW_SLC__1SDV_20200101T000000_20200101T000030_...''
       = Inr ''20200101T000000''
   \<and> stop_time_of ''S1A_IW_SLC__1SDV_20200101T000000_20200101T000030_...''
       = Inr ''20200101T000030''"
proof -
  have general: "start_time_of (join_runs f rest) = Inr (snd (rest ! 3))
      \<and> stop_time_of (join_runs f rest) = Inr (snd (rest ! 4))"
    if ok: "fields_ok f rest" and len: "5 \<le> length rest"
  proof -
    have "re_split_underscores (join_runs f rest) = f # map snd rest"
      by (rule split_join_runs [OF ok])
    with len show ?thesis
      by (simp add: start_time_of_def stop_time_of_def getitem_def)
  qed
  have example:
    "re_split_underscores ''S1A_IW_SLC__1SDV_20200101T000000_20200101T000030_...'' =
       [''S1A'', ''IW'', ''SLC'', ''1SDV'', ''20200101T000000'', ''20200101T000030'', ''...'']"
    by (simp add: re_split_underscores.simps Let_def)
  show ?thesis
    using general by (simp add: mission_of_def start_time_of_def stop_time_of_def getitem_def example)
qed

theorem identifier_parsing_witness:
  "fields_ok ''S1A'' [(0, ''IW''), (0, ''SLC''), (1, ''1SDV''), (0, ''20200101T000000''),
       (0, ''20200101T000030''), (0, ''...'')]
   \<and> join_runs ''S1A'' [(0, ''IW''), (0, ''SLC''), (1, ''1SDV''), (0, ''20200101T000000''),
       (0, ''20200101T000030''), (0, ''...'')]
     = ''S1A_IW_SLC__1SDV_20200101T000000_20200101T000030_...''
   \<and> start_time_of (join_runs ''S1A'' [(0, ''IW''), (0, ''SLC''), (1, ''1SDV''),
       (0, ''20200101T000000''), (0, ''20200101T000030''), (0, ''...'')])
     = Inr ''20200101T000000''
   \<and> stop_time_of (join_runs ''S1A'' [(0, ''IW''), (0, ''SLC''), (1, ''1SDV''),
       (0, ''20200101T000000''), (0, ''20200101T000030''), (0, ''...'')])
     = Inr ''20200101T000030''"
proof -
  let ?rest = "[(0::nat, ''IW''), (0, ''SLC''), (1, ''1SDV''), (0, ''20200101T000000''),
       (0, ''20200101T000030''), (0, ''...'')]"
  have ok: "fields_ok ''S1A'' ?rest" by simp
  have len: "5 \<le> length ?rest" by simp
  have shape: "join_runs ''S1A'' ?rest = ''S1A_IW_SLC__1SDV_20200101T000000_20200101T000030_...''"
    by (simp add: numeral_eq_Suc)
  from identifier_parsing [of "''S1A''" "''S1A''" ?rest] ok len
  have "start_time_of (join_runs ''S1A'' ?rest) = Inr (snd (?rest ! 3))
      \<and> stop_time_of (join_runs ''S1A'' ?rest) = Inr (snd (?rest ! 4))"
    by blast
  then have "start_time_of (join_runs ''S1A'' ?rest) = Inr ''20200101T000000''
      \<and> stop_time_of (join_runs ''S1A'' ?rest) = Inr ''20200101T000030''"
    by (simp add: numeral_eq_Suc)
  with ok shape show ?thesis by blast
qed

section \<open>The credential store: what \<^verbatim>\<open>ensure_orbit_credentials\<close> does\<close>

lemma ensure_present:
  "parse (content file) = Inr n \<Longrightarrow> ESA_CDSE_HOST \<in> set (map fst (hosts n)) \<Longrightarrow>
     ensure_orbit_credentials parse env (Some file) = (Inr None, Some file)"
  by (simp add: ensure_orbit_credentials_def)

lemma ensure_unreadable:
  "parse (content file) = Inl e \<Longrightarrow>
     ensure_orbit_credentials parse env (Some file) = (Inl e, Some file)"
  by (simp add: ensure_orbit_credentials_def)

text \<open>
  Without a record for the host: the call raises the \<^verbatim>\<open>ValueError\<close> with the message that names
  \<^verbatim>\<open>ESA_USERNAME\<close>, \<^verbatim>\<open>ESA_PASSWORD\<close> and \<^verbatim>\<open>~/.netrc\<close> when both variables are unset, leaving the
  file as it was; otherwise it appends the record built from the two variables and writes
  the rendering of the table to the file.
\<close>

lemma ensure_absent:
  assumes "parse (content file) = Inr n" and "ESA_CDSE_HOST \<notin> set (map fst (hosts n))"
  shows "ensure_orbit_credentials parse env (Some file) =
     (if env ''ESA_USERNAME'' = None \<and> env ''ESA_PASSWORD'' = None
      then (Inl (ValueError missing_credentials_message), Some file)
      else (Inr (Some (length (netrc_repr (n\<lparr>hosts := hosts n
              @ [(ESA_CDSE_HOST, (env ''ESA_USERNAME'', None, env ''ESA_PASSWORD''))]\<rparr>)))),
            Some (file\<lparr>content := netrc_repr (n\<lparr>hosts := hosts n
              @ [(ESA_CDSE_HOST, (env ''ESA_USERNAME'', None, env ''ESA_PASSWORD''))]\<rparr>)\<rparr>)))"
  using assms by (simp add: ensure_orbit_credentials_def Let_def)

text \<open>
  Claim C5, at the input where it fails. With no netrc file (the parser reads the empty file
  it then creates as the empty table), \<^verbatim>\<open>ESA_USERNAME\<close> set to \<^verbatim>\<open>user\<close> and \<^verbatim>\<open>ESA_PASSWORD\<close> unset, the
  call returns successfully (59 characters written); the record it added for the host has
  the login \<^verbatim>\<open>user\<close> and no password, and the text it wrote to the file carries the word \<^verbatim>\<open>None\<close>
  where the password belongs.
\<close>

theorem ensure_orbit_credentials_half_set:
  "parse [] = Inr \<lparr>hosts = [], macros = []\<rparr> \<longrightarrow>
     ensure_orbit_credentials parse [''ESA_USERNAME'' \<mapsto> ''user''] None =
       (Inr (Some 59),
        Some \<lparr>mode = 384,
              content = ''machine dataspace.copernicus.eu'' @ [CHR 0x0A, CHR 0x09] @ ''login user''
                @ [CHR 0x0A, CHR 0x09] @ ''password None'' @ [CHR 0x0A]\<rparr>)
     \<and> netrc_repr \<lparr>hosts = [(''dataspace.copernicus.eu'', (Some ''user'', None, None))],
                   macros = []\<rparr> =
         ''machine dataspace.copernicus.eu'' @ [CHR 0x0A, CHR 0x09] @ ''login user''
         @ [CHR 0x0A, CHR 0x09] @ ''password None'' @ [CHR 0x0A]"
  by (simp add: ensure_orbit_credentials_def ESA_CDSE_HOST_def netrc_repr_def Let_def)

theorem ensure_orbit_credentials_half_set_witness:
  "parse_example [] = Inr \<lparr>hosts = [], macros = []\<rparr>
   \<and> ensure_orbit_credentials parse_example [''ESA_USERNAME'' \<mapsto> ''user''] None =
       (Inr (Some 59),
        Some \<lparr>mode = 384,
              content = ''machine dataspace.copernicus.eu'' @ [CHR 0x0A, CHR 0x09] @ ''login user''
                @ [CHR 0x0A, CHR 0x09] @ ''password None'' @ [CHR 0x0A]\<rparr>)"
proof -
  have empty: "parse_example [] = Inr \<lparr>hosts = [], macros = []\<rparr>"
    by (simp add: parse_example_def)
  with ensure_orbit_credentials_half_set [of parse_example] show ?thesis by blast
qed

text \<open>
  Claim C6. When the store holds a record for the host (the file reads as a table with the
  host in it), the call returns \<^verbatim>\<open>None\<close> (nothing written) and leaves the file, and so the
  record, as it was, whatever the environment holds; called again, it does the same.
\<close>

theorem ensure_orbit_credentials_idempotent:
  "parse (content file) = Inr n \<and> ESA_CDSE_HOST \<in> set (map fst (hosts n)) \<longrightarrow>
     ensure_orbit_credentials parse env (Some file) = (Inr None, Some file)
     \<and> ensure_orbit_credentials parse env' (snd (ensure_orbit_credentials parse env (Some file)))
         = (Inr None, Some file)"
proof (intro impI)
  assume "parse (content file) = Inr n \<and> ESA_CDSE_HOST \<in> set (map fst (hosts n))"
  then have readable: "parse (content file) = Inr n"
    and present: "ESA_CDSE_HOST \<in> set (map fst (hosts n))"
    by simp_all
  have once: "ensure_orbit_credentials parse e (Some file) = (Inr None, Some file)" for e
    using readable present by (rule ensure_present)
  then show "ensure_orbit_credentials parse env (Some file) = (Inr None, Some file)
     \<and> ensure_orbit_credentials parse env' (snd (ensure_orbit_credentials parse env (Some file)))
         = (Inr None, Some file)"
    by simp
qed

theorem ensure_orbit_credentials_idempotent_witness:
  "parse_example (content
       \<lparr>mode = 384,
        content = ''machine dataspace.copernicus.eu'' @ [CHR 0x0A, CHR 0x09] @ ''login me''
                   @ [CHR 0x0A, CHR 0x09] @ ''password pw'' @ [CHR 0x0A]\<rparr>)
     = Inr \<lparr>hosts = [(''dataspace.copernicus.eu'', (Some ''me'', Some [], Some ''pw''))],
            macros = []\<rparr>
   \<and> ESA_CDSE_HOST \<in> set (map fst (hosts
       \<lparr>hosts = [(''dataspace.copernicus.eu'', (Some ''me'', Some [], Some ''pw''))],
        macros = []\<rparr>))
   \<and> ensure_orbit_credentials parse_example
        [''ESA_USERNAME'' \<mapsto> ''other'', ''ESA_PASSWORD'' \<mapsto> ''secret'']
        (Some \<lparr>mode = 384,
               content = ''machine dataspace.copernicus.eu'' @ [CHR 0x0A, CHR 0x09] @ ''login me''
                   @ [CHR 0x0A, CHR 0x09] @ ''password pw'' @ [CHR 0x0A]\<rparr>)
      = (Inr None,
         Some \<lparr>mode = 384,
               content = ''machine dataspace.copernicus.eu'' @ [CHR 0x0A, CHR 0x09] @ ''login me''
                   @ [CHR 0x0A, CHR 0x09] @ ''password pw'' @ [CHR 0x0A]\<rparr>)
   \<and> ensure_orbit_credentials parse_example Map.empty
        (snd (ensure_orbit_credentials parse_example
               [''ESA_USERNAME'' \<mapsto> ''other'', ''ESA_PASSWORD'' \<mapsto> ''secret'']
               (Some \<lparr>mode = 384,
                  content = ''machine dataspace.copernicus.eu'' @ [CHR 0x0A, CHR 0x09] @ ''login me''
                   @ [CHR 0x0A, CHR 0x09] @ ''password pw'' @ [CHR 0x0A]\<rparr>)))
      = (Inr None,
         Some \<lparr>mode = 384,
               content = ''machine dataspace.copernicus.eu'' @ [CHR 0x0A, CHR 0x09] @ ''login me''
                   @ [CHR 0x0A, CHR 0x09] @ ''password pw'' @ [CHR 0x0A]\<rparr>)"
proof -
  let ?file = "\<lparr>mode = 384,
      content = ''machine dataspace.copernicus.eu'' @ [CHR 0x0A, CHR 0x09] @ ''login me''
                   @ [CHR 0x0A, CHR 0x09] @ ''password pw'' @ [CHR 0x0A]\<rparr>"
  let ?n = "\<lparr>hosts = [(''dataspace.copernicus.eu'', (Some ''me'', Some [], Some ''pw''))],
      macros = []\<rparr>"
  have readable: "parse_example (content ?file) = Inr ?n"
    by (simp add: parse_example_def)
  have present: "ESA_CDSE_HOST \<in> set (map fst (hosts ?n))"
    by (simp add: ESA_CDSE_HOST_def)
  from readable present ensure_orbit_credentials_idempotent
    [of parse_example ?file ?n "[''ESA_USERNAME'' \<mapsto> ''other'', ''ESA_PASSWORD'' \<mapsto> ''secret'']"
       Map.empty]
  have "ensure_orbit_credentials parse_example
        [''ESA_USERNAME'' \<mapsto> ''other'', ''ESA_PASSWORD'' \<mapsto> ''secret''] (Some ?file)
      = (Inr None, Some ?file)
     \<and> ensure_orbit_credentials parse_example Map.empty
        (snd (ensure_orbit_credentials parse_example
               [''ESA_USERNAME'' \<mapsto> ''other'', ''ESA_PASSWORD'' \<mapsto> ''secret''] (Some ?file)))
      = (Inr None, Some ?file)"
    by blast
  with readable present show ?thesis by blast
qed

section \<open>The download loop as a list comprehension\<close>

lemma download_pair_ok:
  "resolve_pair eof save_dir p = Inr orb_file \<Longrightarrow>
     fst (download_pair eof save_dir p s) = None
     \<and> orb_files (snd (download_pair eof save_dir p s)) = orb_files s @ [orb_file]
     \<and> requests (snd (download_pair eof save_dir p s)) = requests s @ pair_requests eof save_dir p"
  by (cases p) (auto simp: resolve_pair_def pair_requests_def download_pair_def Let_def split: sum.splits)

lemma download_pair_fail:
  "resolve_pair eof save_dir p = Inl e \<Longrightarrow>
     fst (download_pair eof save_dir p s) = Some e
     \<and> orb_files (snd (download_pair eof save_dir p s)) = orb_files s
     \<and> requests (snd (download_pair eof save_dir p s)) = requests s @ pair_requests eof save_dir p"
  by (cases p) (auto simp: resolve_pair_def pair_requests_def download_pair_def Let_def split: sum.splits)

lemma download_loop_ok:
  "comprehension (resolve_pair eof save_dir) ps = Inr paths \<Longrightarrow>
     fst (download_loop eof save_dir ps s) = None
     \<and> orb_files (snd (download_loop eof save_dir ps s)) = orb_files s @ paths
     \<and> requests (snd (download_loop eof save_dir ps s))
         = requests s @ concat (map (pair_requests eof save_dir) ps)"
proof (induction ps arbitrary: s paths)
  case Nil
  then show ?case by simp
next
  case (Cons p ps)
  from Cons.prems obtain y ys where y: "resolve_pair eof save_dir p = Inr y"
    and ys: "comprehension (resolve_pair eof save_dir) ps = Inr ys" and paths: "paths = y # ys"
    by (auto split: sum.splits)
  obtain s' where s': "download_pair eof save_dir p s = (None, s')"
    using download_pair_ok [OF y, of s] by (cases "download_pair eof save_dir p s") auto
  with download_pair_ok [OF y, of s] have
    "orb_files s' = orb_files s @ [y]" "requests s' = requests s @ pair_requests eof save_dir p"
    by auto
  with Cons.IH [OF ys, of s'] s' paths show ?case by simp
qed

lemma download_loop_fail:
  assumes "comprehension (resolve_pair eof save_dir) pre = Inr paths"
      and "resolve_pair eof save_dir p = Inl e"
  shows "fst (download_loop eof save_dir (pre @ p # post) s) = Some e
     \<and> requests (snd (download_loop eof save_dir (pre @ p # post) s))
         = requests s @ concat (map (pair_requests eof save_dir) (pre @ [p]))"
  using assms(1)
proof (induction pre arbitrary: s paths)
  case Nil
  obtain s' where s': "download_pair eof save_dir p s = (Some e, s')"
    using download_pair_fail [OF assms(2), of s] by (cases "download_pair eof save_dir p s") auto
  with download_pair_fail [OF assms(2), of s] show ?case by simp
next
  case (Cons q pre)
  from Cons.prems obtain y ys where y: "resolve_pair eof save_dir q = Inr y"
    and ys: "comprehension (resolve_pair eof save_dir) pre = Inr ys"
    by (auto split: sum.splits)
  obtain s' where s': "download_pair eof save_dir q s = (None, s')"
    using download_pair_ok [OF y, of s] by (cases "download_pair eof save_dir q s") auto
  with download_pair_ok [OF y, of s] have
    "requests s' = requests s @ pair_requests eof save_dir q"
    by auto
  with Cons.IH [OF ys, of s'] s' show ?case by simp
qed

lemma comprehension_Inr: "comprehension g xs = Inr ys \<Longrightarrow> map g xs = map Inr ys"
  by (induction xs arbitrary: ys) (auto split: sum.splits)

lemma comprehension_Inl:
  "comprehension g xs = Inl e \<Longrightarrow>
     \<exists>pre x post ys. xs = pre @ x # post \<and> comprehension g pre = Inr ys \<and> g x = Inl e"
proof (induction xs)
  case Nil
  then show ?case by simp
next
  case (Cons x xs)
  show ?case
  proof (cases "g x")
    case (Inl e')
    with Cons.prems have "e' = e" by simp
    with Inl have "x # xs = [] @ x # xs \<and> comprehension g [] = Inr [] \<and> g x = Inl e" by simp
    then show ?thesis by blast
  next
    case (Inr y)
    with Cons.prems have "comprehension g xs = Inl e" by (auto split: sum.splits)
    from Cons.IH [OF this] obtain pre z post ys
      where "xs = pre @ z # post" "comprehension g pre = Inr ys" "g z = Inl e" by blast
    with Inr have "x # xs = (x # pre) @ z # post \<and> comprehension g (x # pre) = Inr (y # ys) \<and> g z = Inl e"
      by simp
    then show ?thesis by blast
  qed
qed

lemma download_eofs_spec:
  "fst (download_eofs eof dts missions save_dir) =
     (case comprehension (resolve_pair eof save_dir) (zip dts missions) of
        Inl e \<Rightarrow> Inl e
      | Inr paths \<Rightarrow>
          if length missions < length dts
          then Inl (MissingOrbits (int (length dts) - int (length missions)) dts (length missions))
          else Inr paths)"
proof (cases "comprehension (resolve_pair eof save_dir) (zip dts missions)")
  case (Inl e)
  from comprehension_Inl [OF Inl] obtain pre x post ys
    where "zip dts missions = pre @ x # post"
      "comprehension (resolve_pair eof save_dir) pre = Inr ys" "resolve_pair eof save_dir x = Inl e"
    by blast
  with download_loop_fail [of eof save_dir pre ys x e post no_downloads]
  have "fst (download_loop eof save_dir (zip dts missions) no_downloads) = Some e" by simp
  with Inl show ?thesis
    by (auto simp: download_eofs_def split: prod.splits option.splits)
next
  case (Inr paths)
  then have len: "length paths = min (length dts) (length missions)"
    using comprehension_Inr [of "resolve_pair eof save_dir" "zip dts missions" paths]
    by (metis length_map length_zip)
  from download_loop_ok [OF Inr, of no_downloads]
  have "fst (download_loop eof save_dir (zip dts missions) no_downloads) = None"
    "orb_files (snd (download_loop eof save_dir (zip dts missions) no_downloads)) = paths"
    by (simp_all add: no_downloads_def)
  with Inr len show ?thesis
    by (auto simp: download_eofs_def min_def split: prod.splits option.splits if_splits)
qed

lemma zip_fst_snd: "zip (map fst ps) (map snd ps) = ps"
  by (induction ps) auto


lemma attempt_example [simp]:
  "attempt eof_example d t m True = Inl (OtherException ''ASF unreachable'')"
  "attempt eof_example d ''bad'' m False = Inl (OtherException ''ESA has no orbit'')"
  "t \<noteq> ''bad'' \<Longrightarrow> attempt eof_example d t m False = Inr (d @ ''/'' @ t @ ''.EOF'')"
  by (simp_all add: attempt_def eof_example_def first_path_def getitem_def)


text \<open>
  Claim C4. When the first attempt for a pair (the strict request, \<^verbatim>\<open>force_asf=True\<close>) fails
  with any exception, the loop makes exactly one more request, for the same time token and
  mission with \<^verbatim>\<open>force_asf=False\<close>. If that attempt gives a path, the path is appended. If it
  fails with \<open>e2\<close>, the body ends with \<open>e2\<close> uncaught; and when the pairs before it were
  resolved, \<^verbatim>\<open>download_eofs\<close> as a whole fails with \<open>e2\<close>, its last request being that second
  attempt: no later pair is tried.
\<close>

theorem fallback_to_secondary:
  assumes primary: "attempt eof save_dir dt mission True = Inl e1"
  shows "requests (snd (download_pair eof save_dir (dt, mission) s))
           = requests s @ [Request [dt] [mission] save_dir True, Request [dt] [mission] save_dir False]
     \<and> (attempt eof save_dir dt mission False = Inr orb_file \<longrightarrow>
          fst (download_pair eof save_dir (dt, mission) s) = None
          \<and> orb_files (snd (download_pair eof save_dir (dt, mission) s)) = orb_files s @ [orb_file])
     \<and> (attempt eof save_dir dt mission False = Inl e2 \<longrightarrow>
          fst (download_pair eof save_dir (dt, mission) s) = Some e2
          \<and> (comprehension (resolve_pair eof save_dir) pre = Inr paths \<longrightarrow>
               fst (download_eofs eof (map fst (pre @ (dt, mission) # post))
                      (map snd (pre @ (dt, mission) # post)) save_dir) = Inl e2
               \<and> requests (snd (download_eofs eof (map fst (pre @ (dt, mission) # post))
                      (map snd (pre @ (dt, mission) # post)) save_dir))
                   = concat (map (pair_requests eof save_dir) pre)
                     @ [Request [dt] [mission] save_dir True, Request [dt] [mission] save_dir False]))"
proof (intro conjI impI)
  show "requests (snd (download_pair eof save_dir (dt, mission) s))
           = requests s @ [Request [dt] [mission] save_dir True, Request [dt] [mission] save_dir False]"
    using primary by (simp add: download_pair_def Let_def split: sum.splits)
next
  assume "attempt eof save_dir dt mission False = Inr orb_file"
  with primary show "fst (download_pair eof save_dir (dt, mission) s) = None"
    and "orb_files (snd (download_pair eof save_dir (dt, mission) s)) = orb_files s @ [orb_file]"
    by (simp_all add: download_pair_def Let_def)
next
  assume secondary: "attempt eof save_dir dt mission False = Inl e2"
  with primary show "fst (download_pair eof save_dir (dt, mission) s) = Some e2"
    by (simp add: download_pair_def Let_def)
  assume pre: "comprehension (resolve_pair eof save_dir) pre = Inr paths"
  let ?ps = "pre @ (dt, mission) # post"
  have fail: "resolve_pair eof save_dir (dt, mission) = Inl e2"
    using primary secondary by (simp add: resolve_pair_def)
  have reqs: "pair_requests eof save_dir (dt, mission)
      = [Request [dt] [mission] save_dir True, Request [dt] [mission] save_dir False]"
    using primary by (simp add: pair_requests_def)
  from download_loop_fail [OF pre fail, of post no_downloads] reqs
  have loop: "fst (download_loop eof save_dir ?ps no_downloads) = Some e2"
    "requests (snd (download_loop eof save_dir ?ps no_downloads))
       = concat (map (pair_requests eof save_dir) pre)
         @ [Request [dt] [mission] save_dir True, Request [dt] [mission] save_dir False]"
    by (simp_all add: no_downloads_def)
  then show "fst (download_eofs eof (map fst ?ps) (map snd ?ps) save_dir) = Inl e2"
    and "requests (snd (download_eofs eof (map fst ?ps) (map snd ?ps) save_dir))
           = concat (map (pair_requests eof save_dir) pre)
             @ [Request [dt] [mission] save_dir True, Request [dt] [mission] save_dir False]"
    by (auto simp: download_eofs_def zip_fst_snd split: prod.splits option.splits)
qed


theorem fallback_to_secondary_witness:
  "attempt eof_example ''/orb'' ''bad'' ''S1A'' True = Inl (OtherException ''ASF unreachable'')
   \<and> attempt eof_example ''/orb'' ''bad'' ''S1A'' False = Inl (OtherException ''ESA has no orbit'')
   \<and> comprehension (resolve_pair eof_example ''/orb'') [(''20200101T000000'', ''S1A'')]
       = Inr [''/orb/20200101T000000.EOF'']
   \<and> requests (snd (download_pair eof_example ''/orb'' (''bad'', ''S1A'') no_downloads))
       = [Request [''bad''] [''S1A''] ''/orb'' True, Request [''bad''] [''S1A''] ''/orb'' False]
   \<and> fst (download_eofs eof_example [''20200101T000000'', ''bad'', ''20200101T000030'']
            [''S1A'', ''S1A'', ''S1A''] ''/orb'') = Inl (OtherException ''ESA has no orbit'')
   \<and> requests (snd (download_eofs eof_example [''20200101T000000'', ''bad'', ''20200101T000030'']
            [''S1A'', ''S1A'', ''S1A''] ''/orb''))
       = [Request [''20200101T000000''] [''S1A''] ''/orb'' True,
          Request [''20200101T000000''] [''S1A''] ''/orb'' False,
          Request [''bad''] [''S1A''] ''/orb'' True, Request [''bad''] [''S1A''] ''/orb'' False]"
proof -
  have primary: "attempt eof_example ''/orb'' ''bad'' ''S1A'' True = Inl (OtherException ''ASF unreachable'')"
    by simp
  have secondary: "attempt eof_example ''/orb'' ''bad'' ''S1A'' False = Inl (OtherException ''ESA has no orbit'')"
    by simp
  have pre: "comprehension (resolve_pair eof_example ''/orb'') [(''20200101T000000'', ''S1A'')]
       = Inr [''/orb/20200101T000000.EOF'']"
    by (simp add: resolve_pair_def)
  have reqs: "concat (map (pair_requests eof_example ''/orb'') [(''20200101T000000'', ''S1A'')])
      = [Request [''20200101T000000''] [''S1A''] ''/orb'' True,
          Request [''20200101T000000''] [''S1A''] ''/orb'' False]"
    by (simp add: pair_requests_def)
  note inst = fallback_to_secondary [OF primary, of no_downloads "''unused''"
      "OtherException ''ESA has no orbit''" "[(''20200101T000000'', ''S1A'')]"
      "[''/orb/20200101T000000.EOF'']" "[(''20200101T000030'', ''S1A'')]"]
  from inst secondary pre reqs primary show ?thesis
    by (simp add: no_downloads_def)
qed

section \<open>Completeness of orbit resolution\<close>

lemma start_times_well_formed:
  "\<forall>slc_id \<in> set slc_ids. 6 \<le> length (re_split_underscores slc_id) \<Longrightarrow>
     comprehension start_time_of slc_ids = Inr (map (\<lambda>i. re_split_underscores i ! 4) slc_ids)"
  by (induction slc_ids) (auto simp: start_time_of_def getitem_def)

lemma stop_times_well_formed:
  "\<forall>slc_id \<in> set slc_ids. 6 \<le> length (re_split_underscores slc_id) \<Longrightarrow>
     comprehension stop_time_of slc_ids = Inr (map (\<lambda>i. re_split_underscores i ! 5) slc_ids)"
  by (induction slc_ids) (auto simp: stop_time_of_def getitem_def)

lemma get_orbits_credentials_fail:
  assumes "fst (ensure_orbit_credentials parse env fs) = Inl e"
  shows "get_orbits_from_slc_ids parse env eof fs slc_ids directory =
     (Inl e, snd (ensure_orbit_credentials parse env fs), no_downloads)"
proof -
  obtain fs' where "ensure_orbit_credentials parse env fs = (Inl e, fs')"
    using assms by (cases "ensure_orbit_credentials parse env fs") auto
  then show ?thesis by (simp add: get_orbits_from_slc_ids_def)
qed

lemma get_orbits_well_formed:
  assumes wf: "\<forall>slc_id \<in> set slc_ids. 6 \<le> length (re_split_underscores slc_id)"
      and creds: "fst (ensure_orbit_credentials parse env fs) = Inr written"
  shows "fst (get_orbits_from_slc_ids parse env eof fs slc_ids directory) =
     fst (download_eofs eof
            (map (\<lambda>i. re_split_underscores i ! 4) slc_ids @ map (\<lambda>i. re_split_underscores i ! 5) slc_ids)
            (map mission_of slc_ids @ map mission_of slc_ids) directory)"
proof -
  obtain fs' where "ensure_orbit_credentials parse env fs = (Inr written, fs')"
    using creds by (cases "ensure_orbit_credentials parse env fs") auto
  then show ?thesis
    by (simp add: get_orbits_from_slc_ids_def start_times_well_formed [OF wf]
        stop_times_well_formed [OF wf] Let_def split: prod.splits)
qed

lemma get_orbits_outcomes:
  assumes wf: "\<forall>slc_id \<in> set slc_ids. 6 \<le> length (re_split_underscores slc_id)"
      and creds: "fst (ensure_orbit_credentials parse env fs) = Inr written"
  shows "(\<exists>paths. fst (get_orbits_from_slc_ids parse env eof fs slc_ids directory) = Inr paths
            \<and> length paths = 2 * length slc_ids
            \<and> map (resolve_pair eof directory)
                 (zip (map (\<lambda>i. re_split_underscores i ! 4) slc_ids) (map mission_of slc_ids)
                  @ zip (map (\<lambda>i. re_split_underscores i ! 5) slc_ids) (map mission_of slc_ids))
               = map Inr paths)
         \<or> (\<exists>e p. fst (get_orbits_from_slc_ids parse env eof fs slc_ids directory) = Inl e
            \<and> p \<in> set (zip (map (\<lambda>i. re_split_underscores i ! 4) slc_ids) (map mission_of slc_ids)
                  @ zip (map (\<lambda>i. re_split_underscores i ! 5) slc_ids) (map mission_of slc_ids))
            \<and> resolve_pair eof directory p = Inl e)"
proof -
  define starts where "starts = map (\<lambda>i. re_split_underscores i ! 4) slc_ids"
  define stops where "stops = map (\<lambda>i. re_split_underscores i ! 5) slc_ids"
  define missions where "missions = map mission_of slc_ids"
  define tasks where "tasks = zip starts missions @ zip stops missions"
  define r where "r = fst (get_orbits_from_slc_ids parse env eof fs slc_ids directory)"
  have lens: "length starts = length slc_ids" "length stops = length slc_ids"
    "length missions = length slc_ids"
    by (simp_all add: starts_def stops_def missions_def)
  have tasks: "zip (starts @ stops) (missions @ missions) = tasks"
    by (simp add: tasks_def lens)
  have r: "r = fst (download_eofs eof (starts @ stops) (missions @ missions) directory)"
    using get_orbits_well_formed [OF wf creds, of eof directory]
    by (simp add: r_def starts_def stops_def missions_def)
  have "(\<exists>paths. r = Inr paths \<and> length paths = 2 * length slc_ids
            \<and> map (resolve_pair eof directory) tasks = map Inr paths)
         \<or> (\<exists>e p. r = Inl e \<and> p \<in> set tasks \<and> resolve_pair eof directory p = Inl e)"
  proof (cases "comprehension (resolve_pair eof directory) tasks")
    case (Inl e)
    from comprehension_Inl [OF Inl] obtain pre p post
      where "tasks = pre @ p # post" and p: "resolve_pair eof directory p = Inl e" by blast
    then have "p \<in> set tasks" by simp
    moreover have "r = Inl e"
      using Inl by (simp add: r download_eofs_spec tasks)
    ultimately show ?thesis using p by blast
  next
    case (Inr paths)
    have "r = Inr paths"
      using Inr by (simp add: r download_eofs_spec tasks lens)
    moreover have m: "map (resolve_pair eof directory) tasks = map Inr paths"
      by (rule comprehension_Inr [OF Inr])
    moreover have "length paths = 2 * length slc_ids"
    proof -
      have "length paths = length tasks" using m by (metis length_map)
      then show ?thesis by (simp add: tasks_def lens)
    qed
    ultimately show ?thesis by blast
  qed
  then show ?thesis
    by (simp add: starts_def stops_def missions_def tasks_def r_def)
qed

text \<open>
  Claim C2, as amended. For well-formed identifiers (six fields or more each),
  \<^verbatim>\<open>get_orbits_from_slc_ids\<close> has four outcomes. When the credential step raises (missing
  credentials, or a netrc file that cannot be read), it fails with that exception and no
  download is requested. Otherwise it either returns exactly \<open>2N\<close> paths, the \<open>i\<close>-th being the
  path resolved for the \<open>i\<close>-th task of (start tokens, then stop tokens, each with its
  identifier's mission), or fails with the exception of a pair whose two attempts both
  failed. Whatever the credential step does, a returned list has \<open>2N\<close> paths.
  \<^verbatim>\<open>download_eofs\<close> on any two lists is the comprehension of \<open>resolve_pair\<close> over the zipped
  pairs followed by the count check: with fewer missions than time tokens it fails with
  \<open>MissingOrbits\<close> carrying the shortfall, the token list and the number of files found;
  whenever it returns a list, the list is as long as the token list.
\<close>

theorem orbit_resolution_complete:
  "((\<forall>slc_id \<in> set slc_ids. 6 \<le> length (re_split_underscores slc_id)) \<longrightarrow>
     (let starts = map (\<lambda>i. re_split_underscores i ! 4) slc_ids;
          stops = map (\<lambda>i. re_split_underscores i ! 5) slc_ids;
          missions = map mission_of slc_ids;
          tasks = zip starts missions @ zip stops missions;
          run = get_orbits_from_slc_ids parse env eof fs slc_ids directory;
          r = fst run
      in (case fst (ensure_orbit_credentials parse env fs) of
            Inl e \<Rightarrow> r = Inl e \<and> snd (snd run) = no_downloads
          | Inr written \<Rightarrow>
              (\<exists>paths. r = Inr paths \<and> length paths = 2 * length slc_ids
                 \<and> map (resolve_pair eof directory) tasks = map Inr paths)
              \<or> (\<exists>e p. r = Inl e \<and> p \<in> set tasks \<and> resolve_pair eof directory p = Inl e))
         \<and> (\<forall>paths. r = Inr paths \<longrightarrow> length paths = 2 * length slc_ids)))
   \<and> fst (download_eofs eof dts ms save_dir) =
       (case comprehension (resolve_pair eof save_dir) (zip dts ms) of
          Inl e \<Rightarrow> Inl e
        | Inr paths \<Rightarrow>
            if length ms < length dts
            then Inl (MissingOrbits (int (length dts) - int (length ms)) dts (length ms))
            else Inr paths)
   \<and> (fst (download_eofs eof dts ms save_dir) = Inr found \<longrightarrow>
        length found = length dts
        \<and> map (resolve_pair eof save_dir) (zip dts ms) = map Inr found)"
proof (intro conjI impI)
  show "fst (download_eofs eof dts ms save_dir) =
       (case comprehension (resolve_pair eof save_dir) (zip dts ms) of
          Inl e \<Rightarrow> Inl e
        | Inr paths \<Rightarrow>
            if length ms < length dts
            then Inl (MissingOrbits (int (length dts) - int (length ms)) dts (length ms))
            else Inr paths)"
    by (rule download_eofs_spec)
next
  assume found: "fst (download_eofs eof dts ms save_dir) = Inr found"
  then have c: "comprehension (resolve_pair eof save_dir) (zip dts ms) = Inr found"
    and len: "\<not> length ms < length dts"
    by (auto simp: download_eofs_spec split: sum.splits if_splits)
  from comprehension_Inr [OF c]
  show m: "map (resolve_pair eof save_dir) (zip dts ms) = map Inr found" .
  then have "length found = length (zip dts ms)" by (metis length_map)
  with len show "length found = length dts" by simp
next
  assume wf: "\<forall>slc_id \<in> set slc_ids. 6 \<le> length (re_split_underscores slc_id)"
  let ?run = "get_orbits_from_slc_ids parse env eof fs slc_ids directory"
  let ?tasks = "zip (map (\<lambda>i. re_split_underscores i ! 4) slc_ids) (map mission_of slc_ids)
      @ zip (map (\<lambda>i. re_split_underscores i ! 5) slc_ids) (map mission_of slc_ids)"
  have outcome: "case fst (ensure_orbit_credentials parse env fs) of
            Inl e \<Rightarrow> fst ?run = Inl e \<and> snd (snd ?run) = no_downloads
          | Inr written \<Rightarrow>
              (\<exists>paths. fst ?run = Inr paths \<and> length paths = 2 * length slc_ids
                 \<and> map (resolve_pair eof directory) ?tasks = map Inr paths)
              \<or> (\<exists>e p. fst ?run = Inl e \<and> p \<in> set ?tasks \<and> resolve_pair eof directory p = Inl e)"
  proof (cases "fst (ensure_orbit_credentials parse env fs)")
    case (Inl e)
    with get_orbits_credentials_fail [OF Inl, of eof slc_ids directory] show ?thesis by simp
  next
    case (Inr written)
    with get_orbits_outcomes [OF wf Inr, of eof directory] show ?thesis by simp
  qed
  have never_short: "\<forall>paths. fst ?run = Inr paths \<longrightarrow> length paths = 2 * length slc_ids"
  proof (cases "fst (ensure_orbit_credentials parse env fs)")
    case (Inl e)
    with get_orbits_credentials_fail [OF Inl, of eof slc_ids directory] show ?thesis by simp
  next
    case (Inr written)
    with get_orbits_outcomes [OF wf Inr, of eof directory] show ?thesis by auto
  qed
  from outcome never_short
  show "let starts = map (\<lambda>i. re_split_underscores i ! 4) slc_ids;
          stops = map (\<lambda>i. re_split_underscores i ! 5) slc_ids;
          missions = map mission_of slc_ids;
          tasks = zip starts missions @ zip stops missions;
          run = get_orbits_from_slc_ids parse env eof fs slc_ids directory;
          r = fst run
      in (case fst (ensure_orbit_credentials parse env fs) of
            Inl e \<Rightarrow> r = Inl e \<and> snd (snd run) = no_downloads
          | Inr written \<Rightarrow>
              (\<exists>paths. r = Inr paths \<and> length paths = 2 * length slc_ids
                 \<and> map (resolve_pair eof directory) tasks = map Inr paths)
              \<or> (\<exists>e p. r = Inl e \<and> p \<in> set tasks \<and> resolve_pair eof directory p = Inl e))
         \<and> (\<forall>paths. r = Inr paths \<longrightarrow> length paths = 2 * length slc_ids)"
    unfolding Let_def by blast
qed

lemma example_fields:
  "re_split_underscores ''S1A_IW_SLC__1SDV_20200101T000000_20200101T000030_...'' =
     [''S1A'', ''IW'', ''SLC'', ''1SDV'', ''20200101T000000'', ''20200101T000030'', ''...'']"
  "re_split_underscores ''S1B_IW_SLC__1SDV_20200102T000000_20200102T000030_...'' =
     [''S1B'', ''IW'', ''SLC'', ''1SDV'', ''20200102T000000'', ''20200102T000030'', ''...'']"
  by (simp_all add: re_split_underscores.simps Let_def)

theorem orbit_resolution_complete_counterexample:
  "6 \<le> length (re_split_underscores ''S1A_IW_SLC__1SDV_20200101T000000_20200101T000030_...'')
   \<and> fst (get_orbits_from_slc_ids parse_example Map.empty eof_example None
            [''S1A_IW_SLC__1SDV_20200101T000000_20200101T000030_...''] ''/orb'')
       = Inl (ValueError missing_credentials_message)
   \<and> requests (snd (snd (get_orbits_from_slc_ids parse_example Map.empty eof_example None
            [''S1A_IW_SLC__1SDV_20200101T000000_20200101T000030_...''] ''/orb''))) = []"
proof -
  have "ensure_orbit_credentials parse_example Map.empty None
      = (Inl (ValueError missing_credentials_message), Some \<lparr>mode = 384, content = []\<rparr>)"
    by (simp add: ensure_orbit_credentials_def parse_example_def ESA_CDSE_HOST_def Let_def)
  then show ?thesis
    by (simp add: get_orbits_from_slc_ids_def example_fields no_downloads_def)
qed

theorem orbit_resolution_complete_witness:
  "6 \<le> length (re_split_underscores ''S1A_IW_SLC__1SDV_20200101T000000_20200101T000030_...'')
   \<and> 6 \<le> length (re_split_underscores ''S1B_IW_SLC__1SDV_20200102T000000_20200102T000030_...'')
   \<and> fst (ensure_orbit_credentials parse_example
            [''ESA_USERNAME'' \<mapsto> ''u'', ''ESA_PASSWORD'' \<mapsto> ''p''] None) = Inr (Some 53)
   \<and> fst (get_orbits_from_slc_ids parse_example
            [''ESA_USERNAME'' \<mapsto> ''u'', ''ESA_PASSWORD'' \<mapsto> ''p''] eof_example None
            [''S1A_IW_SLC__1SDV_20200101T000000_20200101T000030_...'',
             ''S1B_IW_SLC__1SDV_20200102T000000_20200102T000030_...''] ''/orb'')
       = Inr [''/orb/20200101T000000.EOF'', ''/orb/20200102T000000.EOF'',
              ''/orb/20200101T000030.EOF'', ''/orb/20200102T000030.EOF'']
   \<and> fst (get_orbits_from_slc_ids parse_example Map.empty eof_example None
            [''S1A_IW_SLC__1SDV_20200101T000000_20200101T000030_...'',
             ''S1B_IW_SLC__1SDV_20200102T000000_20200102T000030_...''] ''/orb'')
       = Inl (ValueError missing_credentials_message)
   \<and> fst (download_eofs eof_example [''20200101T000000'', ''20200101T000030'', ''20200102T000000'']
            [''S1A''] ''/orb'')
       = Inl (MissingOrbits 2 [''20200101T000000'', ''20200101T000030'', ''20200102T000000''] 1)"
proof -
  let ?a = "''S1A_IW_SLC__1SDV_20200101T000000_20200101T000030_...''"
  let ?b = "''S1B_IW_SLC__1SDV_20200102T000000_20200102T000030_...''"
  let ?env = "[''ESA_USERNAME'' \<mapsto> ''u'', ''ESA_PASSWORD'' \<mapsto> ''p'']"
  let ?r = "fst (get_orbits_from_slc_ids parse_example ?env eof_example None [?a, ?b] ''/orb'')"
  let ?tasks = "zip (map (\<lambda>i. re_split_underscores i ! 4) [?a, ?b]) (map mission_of [?a, ?b])
      @ zip (map (\<lambda>i. re_split_underscores i ! 5) [?a, ?b]) (map mission_of [?a, ?b])"
  let ?dts = "[''20200101T000000'', ''20200101T000030'', ''20200102T000000'']"
  have wf: "\<forall>slc_id \<in> set [?a, ?b]. 6 \<le> length (re_split_underscores slc_id)"
    by (simp add: example_fields)
  have creds: "fst (ensure_orbit_credentials parse_example ?env None) = Inr (Some 53)"
    by (simp add: ensure_orbit_credentials_def parse_example_def ESA_CDSE_HOST_def netrc_repr_def
        Let_def)
  have nocreds: "fst (ensure_orbit_credentials parse_example Map.empty None)
      = Inl (ValueError missing_credentials_message)"
    by (simp add: ensure_orbit_credentials_def parse_example_def ESA_CDSE_HOST_def Let_def)
  note inst = orbit_resolution_complete [of "[?a, ?b]" parse_example ?env eof_example None "''/orb''"
      ?dts "[''S1A'']" "''/orb''" "[]"]
  note inst' = orbit_resolution_complete [of "[?a, ?b]" parse_example Map.empty eof_example None
      "''/orb''" ?dts "[''S1A'']" "''/orb''" "[]"]
  have short: "comprehension (resolve_pair eof_example ''/orb'') (zip ?dts [''S1A''])
      = Inr [''/orb/20200101T000000.EOF'']"
    by (simp add: resolve_pair_def)
  from inst short have mismatch:
    "fst (download_eofs eof_example ?dts [''S1A''] ''/orb'') = Inl (MissingOrbits 2 ?dts 1)"
    by simp
  from inst' wf nocreds
  have refused: "fst (get_orbits_from_slc_ids parse_example Map.empty eof_example None [?a, ?b]
      ''/orb'') = Inl (ValueError missing_credentials_message)"
    unfolding Let_def by simp
  from inst wf creds
  have "(\<exists>paths. ?r = Inr paths \<and> length paths = 2 * length [?a, ?b]
            \<and> map (resolve_pair eof_example ''/orb'') ?tasks = map Inr paths)
         \<or> (\<exists>e p. ?r = Inl e \<and> p \<in> set ?tasks \<and> resolve_pair eof_example ''/orb'' p = Inl e)"
    unfolding Let_def by simp
  then obtain paths where paths: "?r = Inr paths"
    "map (resolve_pair eof_example ''/orb'') ?tasks = map Inr paths"
    by (auto simp: example_fields mission_of_def resolve_pair_def)
  from paths(2) have "paths = [''/orb/20200101T000000.EOF'', ''/orb/20200102T000000.EOF'',
      ''/orb/20200101T000030.EOF'', ''/orb/20200102T000030.EOF'']"
    by (auto simp: example_fields mission_of_def resolve_pair_def)
  with paths(1) wf creds mismatch refused show ?thesis by (simp add: example_fields)
qed

section \<open>The output router and the loop body\<close>

lemma write_cube_frame:
  "delay_dct (snd (write_cube eng ds out s)) = delay_dct s"
  "filter is_wm_call (calls (snd (write_cube eng ds out s))) = filter is_wm_call (calls s)"
  "fst (write_cube eng ds out s) = fst (write_cube eng ds out s0)"
  by (auto simp: write_cube_def Let_def split: option.splits)

lemma write_pair_frame:
  "delay_dct (snd (snd (write_pair eng p wet hydro out f s))) = delay_dct s"
  "filter is_wm_call (calls (snd (snd (write_pair eng p wet hydro out f s)))) = filter is_wm_call (calls s)"
  "fst (write_pair eng p wet hydro out f s) = fst (write_pair eng p wet hydro out f s0)"
  "fst (snd (write_pair eng p wet hydro out f s)) =
     (if aoi_type (aoi p) = ''station_file'' then fst (splitext out) @ ''.csv'' else out)"
  by (auto simp: write_pair_def Let_def split: option.splits)

lemma route_frame:
  "filter is_wm_call (calls (snd (route eng p t w f wet hydro s))) = filter is_wm_call (calls s)"
  "fst (route eng p t w f wet hydro s) = fst (route eng p t w f wet hydro s0)"
proof -
  show "filter is_wm_call (calls (snd (route eng p t w f wet hydro s))) = filter is_wm_call (calls s)"
  proof (cases hydro)
    case None
    then show ?thesis
      using write_cube_frame(2) [of eng wet "cube_filename (fst (los_filenames (los p) w f))" s]
      by (auto simp: route_def Let_def split: prod.splits option.splits)
  next
    case (Some h)
    then show ?thesis
      using write_pair_frame(2) [of eng p wet h "fst (los_filenames (los p) w f)" "snd (los_filenames (los p) w f)" s]
      by (auto simp: route_def Let_def split: prod.splits option.splits)
  qed
  show "fst (route eng p t w f wet hydro s) = fst (route eng p t w f wet hydro s0)"
  proof (cases hydro)
    case None
    then show ?thesis
      using write_cube_frame(3) [of eng wet "cube_filename (fst (los_filenames (los p) w f))" s s0]
      by (auto simp: route_def Let_def split: prod.splits option.splits)
  next
    case (Some h)
    then show ?thesis
      using write_pair_frame(3) [of eng p wet h "fst (los_filenames (los p) w f)" "snd (los_filenames (los p) w f)" s s0]
      by (auto simp: route_def Let_def split: prod.splits option.splits)
  qed
qed

lemma route_dct:
  "delay_dct (snd (route eng p t w f wet hydro s)) =
     (if fst (route eng p t w f wet hydro s) = None
      then (delay_dct s)(t \<mapsto> final_names p w f hydro) else delay_dct s)"
proof (cases hydro)
  case None
  then show ?thesis
    using write_cube_frame(1) [of eng wet "cube_filename (fst (los_filenames (los p) w f))" s]
    by (auto simp: route_def final_names_def Let_def split: prod.splits option.splits)
next
  case (Some h)
  then show ?thesis
    using write_pair_frame(1,4) [of eng p wet h "fst (los_filenames (los p) w f)" "snd (los_filenames (los p) w f)" s]
    by (auto simp: route_def final_names_def Let_def split: prod.splits option.splits)
qed

lemma process_job_unfold:
  "process_job eng p dl_only (t, w, f) s =
     (let s1 = s\<lparr>logged := logged s @ job_debug t, calls := calls s @ [wm_call p dl_only t]\<rparr>
      in case wm_result eng p dl_only t of
           Inl e \<Rightarrow>
             if isinstance_RuntimeError e
             then (None, s1\<lparr>logged := logged s1 @ [LogDateFailed t]\<rparr>)
             else (Some e, s1)
         | Inr weather_model_file \<Rightarrow>
             if dl_only then (None, s1)
             else
               let s2 = s1\<lparr>calls := calls s1 @ [TropoDelay t weather_model_file]\<rparr>
               in case delay_result eng p t weather_model_file of
                    Inl e \<Rightarrow>
                      if isinstance_RuntimeError e
                      then (None, s2\<lparr>logged := logged s2 @ [LogDateFailed t]\<rparr>)
                      else (Some e, s2)
                  | Inr (wet_delay, hydro_delay) \<Rightarrow> route eng p t w f wet_delay hydro_delay s2)"
  by (simp add: process_job_def wm_result_def wm_call_def delay_result_def job_debug_def Let_def
      split: sum.splits prod.splits)

lemma process_job_raises:
  "fst (process_job eng p dl_only job s) = job_raises eng p dl_only job"
proof -
  obtain t w f where job: "job = (t, w, f)" by (cases job)
  show ?thesis
    unfolding job_raises_def job process_job_unfold Let_def
    by (auto split: sum.splits prod.splits intro: route_frame(2))
qed

lemma process_job_dct:
  "job_raises eng p dl_only job = None \<Longrightarrow>
     delay_dct (snd (process_job eng p dl_only job s)) =
       (case job_entry eng p dl_only job of
          None \<Rightarrow> delay_dct s
        | Some (t, names) \<Rightarrow> (delay_dct s)(t \<mapsto> names))"
proof -
  assume ok: "job_raises eng p dl_only job = None"
  obtain t w f where job: "job = (t, w, f)" by (cases job)
  from ok have "fst (process_job eng p dl_only (t, w, f) s) = None"
    by (simp add: process_job_raises job)
  then show ?thesis
    unfolding job process_job_unfold Let_def job_entry_def
    by (auto simp: route_dct split: sum.splits prod.splits if_splits)
qed

lemma process_job_wm_calls:
  "filter is_wm_call (calls (snd (process_job eng p dl_only job s)))
     = filter is_wm_call (calls s) @ [wm_call p dl_only (fst job)]"
proof -
  obtain t w f where job: "job = (t, w, f)" by (cases job)
  show ?thesis
    unfolding job process_job_unfold Let_def
    by (auto simp: route_frame(1) wm_call_def split: sum.splits prod.splits)
qed

lemma runtime_failure_contained:
  assumes "runtime_failure eng p dl_only t"
  shows "process_job eng p dl_only (t, w, f) s =
     (None,
      s\<lparr>logged := logged s @ job_debug t @ [LogDateFailed t],
        calls := calls s @ wm_call p dl_only t
          # (case wm_result eng p dl_only t of Inl _ \<Rightarrow> [] | Inr file \<Rightarrow> [TropoDelay t file])\<rparr>)"
  using assms unfolding process_job_unfold Let_def runtime_failure_def
  by (auto split: sum.splits prod.splits)

lemma run_jobs_append:
  "run_jobs eng p dl_only (xs @ ys) s =
     (case run_jobs eng p dl_only xs s of
        (Some e, s') \<Rightarrow> (Some e, s')
      | (None, s') \<Rightarrow> run_jobs eng p dl_only ys s')"
  by (induction xs arbitrary: s) (auto split: prod.splits option.splits)

lemma run_jobs_returns:
  "\<forall>job \<in> set jobs. job_raises eng p dl_only job = None \<Longrightarrow>
     fst (run_jobs eng p dl_only jobs s) = None"
proof (induction jobs arbitrary: s)
  case Nil
  then show ?case by simp
next
  case (Cons job jobs)
  then have "fst (process_job eng p dl_only job s) = None"
    by (simp add: process_job_raises)
  then obtain s' where "process_job eng p dl_only job s = (None, s')"
    by (cases "process_job eng p dl_only job s") auto
  with Cons show ?case by simp
qed

lemma run_jobs_dct:
  "\<forall>job \<in> set jobs. job_raises eng p dl_only job = None \<Longrightarrow>
     delay_dct (snd (run_jobs eng p dl_only jobs s)) =
       delay_dct s ++ map_of (rev (List.map_filter (job_entry eng p dl_only) jobs))"
proof (induction jobs arbitrary: s)
  case Nil
  then show ?case by simp
next
  case (Cons job jobs)
  then have ok: "job_raises eng p dl_only job = None" by simp
  then have "fst (process_job eng p dl_only job s) = None"
    by (simp add: process_job_raises)
  then obtain s' where s': "process_job eng p dl_only job s = (None, s')"
    by (cases "process_job eng p dl_only job s") auto
  have dct: "delay_dct s' = (case job_entry eng p dl_only job of
          None \<Rightarrow> delay_dct s | Some (t, names) \<Rightarrow> (delay_dct s)(t \<mapsto> names))"
    using process_job_dct [OF ok, of s] s' by simp
  have "delay_dct (snd (run_jobs eng p dl_only (job # jobs) s))
      = delay_dct s' ++ map_of (rev (List.map_filter (job_entry eng p dl_only) jobs))"
    using Cons s' by simp
  also have "\<dots> = delay_dct s ++ map_of (rev (List.map_filter (job_entry eng p dl_only) (job # jobs)))"
    using dct by (auto split: option.splits)
  finally show ?case .
qed

lemma run_jobs_wm_calls:
  "\<forall>job \<in> set jobs. job_raises eng p dl_only job = None \<Longrightarrow>
     filter is_wm_call (calls (snd (run_jobs eng p dl_only jobs s)))
       = filter is_wm_call (calls s) @ map (\<lambda>job. wm_call p dl_only (fst job)) jobs"
proof (induction jobs arbitrary: s)
  case Nil
  then show ?case by simp
next
  case (Cons job jobs)
  then have "fst (process_job eng p dl_only job s) = None"
    by (simp add: process_job_raises)
  then obtain s' where s': "process_job eng p dl_only job s = (None, s')"
    by (cases "process_job eng p dl_only job s") auto
  with process_job_wm_calls [of eng p dl_only job s]
  have "filter is_wm_call (calls s') = filter is_wm_call (calls s) @ [wm_call p dl_only (fst job)]"
    by simp
  with Cons s' show ?case by simp
qed

section \<open>The example batch\<close>

lemma example_jobs:
  "jobs_of example_params =
     [(Datetime 2020 3 5 0 0 0, ''20200305_wet_ztd.nc'', ''20200305_hydro_ztd.nc''),
      (Datetime 2020 3 17 0 0 0, ''20200317_wet_ztd.nc'', ''20200317_hydro_ztd.nc''),
      (Datetime 2020 3 29 0 0 0, ''20200329_wet_ztd.nc'', ''20200329_hydro_ztd.nc'')]"
  by (simp add: jobs_of_def example_params_def)

lemma example_wm:
  "wm_result example_engines example_params dl (Datetime 2020 3 17 0 0 0)
     = Inl (RuntimeError ''no weather model data'')"
  "wm_result example_engines example_params dl (Datetime 2020 3 5 0 0 0) = Inr ''weather_files/GMAO.nc''"
  "wm_result example_engines example_params dl (Datetime 2020 3 29 0 0 0) = Inr ''weather_files/GMAO.nc''"
  by (simp_all add: wm_result_def example_engines_def example_params_def)

lemma example_delay:
  "delay_result example_engines example_params t file = Inr ([1, 2, 3], None)"
  by (simp add: delay_result_def example_engines_def)

lemma example_cube_names:
  "cube_filename ''20200305_wet_ztd.nc'' = ''20200305_tropo_ztd.nc''"
  "cube_filename ''20200329_wet_ztd.nc'' = ''20200329_tropo_ztd.nc''"
  by (simp_all add: cube_filename_def splitext_def rfind_def Let_def upt_rec)

lemma example_final_names:
  "final_names example_params ''20200305_wet_ztd.nc'' ''20200305_hydro_ztd.nc'' None
     = (''20200305_tropo_ztd.nc'', ''20200305_hydro_ztd.nc'')"
  "final_names example_params ''20200329_wet_ztd.nc'' ''20200329_hydro_ztd.nc'' None
     = (''20200329_tropo_ztd.nc'', ''20200329_hydro_ztd.nc'')"
  by (simp_all add: final_names_def los_filenames_def example_params_def example_cube_names)

lemma example_writers:
  "fst (write_cube example_engines ds out s) = None"
  "fst (write_pair example_engines p wet hydro out f s) = None"
  by (simp_all add: write_cube_def write_pair_def example_engines_def Let_def)

lemma example_route: "fst (route example_engines p t w f wet hydro s) = None"
proof (cases hydro)
  case None
  then show ?thesis
    using example_writers(1) [of wet "cube_filename (fst (los_filenames (los p) w f))" s]
    by (auto simp: route_def Let_def split: prod.splits option.splits)
next
  case (Some h)
  then show ?thesis
    using example_writers(2) [of p wet h "fst (los_filenames (los p) w f)"
        "snd (los_filenames (los p) w f)" s]
    by (auto simp: route_def Let_def split: prod.splits option.splits)
qed

lemma example_wm_cases:
  "wm_result example_engines p dl t = Inl e \<Longrightarrow> isinstance_RuntimeError e"
  by (auto simp: wm_result_def example_engines_def split: if_splits)

lemma example_raises:
  "job_raises example_engines example_params dl job = None"
proof -
  obtain t w f where job: "job = (t, w, f)" by (cases job)
  show ?thesis
    unfolding job_raises_def job process_job_unfold Let_def
    by (auto simp: example_delay example_route dest: example_wm_cases split: sum.splits)
qed

lemma example_entries:
  "List.map_filter (job_entry example_engines example_params False) (jobs_of example_params)
     = [(Datetime 2020 3 5 0 0 0, ''20200305_tropo_ztd.nc'', ''20200305_hydro_ztd.nc''),
        (Datetime 2020 3 29 0 0 0, ''20200329_tropo_ztd.nc'', ''20200329_hydro_ztd.nc'')]"
  by (simp add: example_jobs job_entry_def example_wm example_delay
      example_final_names)

section \<open>Outcomes of a batch\<close>

lemma dom_map_of_rev: "dom (map_of (rev xs)) = fst ` set xs"
  by (simp add: dom_map_of_conv_image_fst)

lemma card_dom_entries:
  "card (fst ` set (List.map_filter g jobs)) \<le> length jobs"
proof -
  have "card (fst ` set (List.map_filter g jobs)) \<le> card (set (List.map_filter g jobs))"
    by (rule card_image_le) simp
  also have "\<dots> \<le> length (List.map_filter g jobs)" by (rule card_length)
  also have "\<dots> \<le> length jobs" by (simp add: map_filter_def)
  finally show ?thesis .
qed


text \<open>
  Claim C1, as amended. When nothing but an engine's runtime failure is raised in any job
  (no job leaves the loop with an exception), the loop returns a mapping keyed by date:
  it holds an entry for exactly the dates of the jobs that passed both engines, each with
  the final wet and hydrostatic names of the last such job of that date, so it has at most
  as many entries as there are jobs, and a failed job adds no entry. The jobs are processed
  in input order: the weather model calls of the run are those of the jobs, one each, in
  the order of the job list.
\<close>

theorem batch_outcomes:
  assumes "\<forall>job \<in> set (jobs_of p). job_raises eng p dl_only job = None"
  shows "fst (calcDelays_loop eng p dl_only)
           = Inr (map_of (rev (List.map_filter (job_entry eng p dl_only) (jobs_of p))))
     \<and> dom (map_of (rev (List.map_filter (job_entry eng p dl_only) (jobs_of p))))
           = fst ` set (List.map_filter (job_entry eng p dl_only) (jobs_of p))
     \<and> card (dom (map_of (rev (List.map_filter (job_entry eng p dl_only) (jobs_of p)))))
           \<le> length (jobs_of p)
     \<and> filter is_wm_call (calls (snd (calcDelays_loop eng p dl_only)))
           = map (\<lambda>job. wm_call p dl_only (fst job)) (jobs_of p)"
proof -
  from run_jobs_returns [OF assms, of empty_batch]
  obtain s where s: "run_jobs eng p dl_only (jobs_of p) empty_batch = (None, s)"
    by (cases "run_jobs eng p dl_only (jobs_of p) empty_batch") auto
  have dct: "delay_dct s = map_of (rev (List.map_filter (job_entry eng p dl_only) (jobs_of p)))"
    using run_jobs_dct [OF assms, of empty_batch] s by (simp add: empty_batch_def)
  have wm: "filter is_wm_call (calls s) = map (\<lambda>job. wm_call p dl_only (fst job)) (jobs_of p)"
    using run_jobs_wm_calls [OF assms, of empty_batch] s by (simp add: empty_batch_def)
  show ?thesis
    using s dct wm card_dom_entries [of "job_entry eng p dl_only" "jobs_of p"]
    by (simp add: calcDelays_loop_def dom_map_of_rev)
qed

theorem batch_outcomes_counterexample:
  "length (jobs_of example_params) = 3
   \<and> runtime_failure example_engines example_params False (Datetime 2020 3 17 0 0 0)
   \<and> fst (calcDelays_loop example_engines example_params False)
       = Inr (delay_dct (snd (calcDelays_loop example_engines example_params False)))
   \<and> delay_dct (snd (calcDelays_loop example_engines example_params False))
        (Datetime 2020 3 17 0 0 0) = None
   \<and> dom (delay_dct (snd (calcDelays_loop example_engines example_params False)))
       = {Datetime 2020 3 5 0 0 0, Datetime 2020 3 29 0 0 0}"
proof -
  have ok: "\<forall>job \<in> set (jobs_of example_params).
      job_raises example_engines example_params False job = None"
    by (simp add: example_raises)
  from run_jobs_returns [OF ok, of empty_batch]
  obtain s where s: "run_jobs example_engines example_params False (jobs_of example_params)
      empty_batch = (None, s)"
    by (cases "run_jobs example_engines example_params False (jobs_of example_params) empty_batch")
      auto
  have dct: "delay_dct s =
      map_of [(Datetime 2020 3 29 0 0 0, ''20200329_tropo_ztd.nc'', ''20200329_hydro_ztd.nc''),
              (Datetime 2020 3 5 0 0 0, ''20200305_tropo_ztd.nc'', ''20200305_hydro_ztd.nc'')]"
    using run_jobs_dct [OF ok, of empty_batch] s
    by (simp add: empty_batch_def example_entries)
  have "runtime_failure example_engines example_params False (Datetime 2020 3 17 0 0 0)"
    by (simp add: runtime_failure_def example_wm)
  then show ?thesis
    using s dct by (auto simp: calcDelays_loop_def example_jobs)
qed

theorem batch_outcomes_witness:
  "job_raises example_engines example_params False
       (Datetime 2020 3 5 0 0 0, ''20200305_wet_ztd.nc'', ''20200305_hydro_ztd.nc'') = None
   \<and> job_raises example_engines example_params False
       (Datetime 2020 3 17 0 0 0, ''20200317_wet_ztd.nc'', ''20200317_hydro_ztd.nc'') = None
   \<and> job_raises example_engines example_params False
       (Datetime 2020 3 29 0 0 0, ''20200329_wet_ztd.nc'', ''20200329_hydro_ztd.nc'') = None
   \<and> fst (calcDelays_loop example_engines example_params False)
       = Inr (map_of
           [(Datetime 2020 3 29 0 0 0, ''20200329_tropo_ztd.nc'', ''20200329_hydro_ztd.nc''),
            (Datetime 2020 3 5 0 0 0, ''20200305_tropo_ztd.nc'', ''20200305_hydro_ztd.nc'')])
   \<and> filter is_wm_call (calls (snd (calcDelays_loop example_engines example_params False)))
       = [wm_call example_params False (Datetime 2020 3 5 0 0 0),
          wm_call example_params False (Datetime 2020 3 17 0 0 0),
          wm_call example_params False (Datetime 2020 3 29 0 0 0)]"
proof -
  have ok: "\<forall>job \<in> set (jobs_of example_params).
      job_raises example_engines example_params False job = None"
    by (simp add: example_raises)
  from batch_outcomes [OF ok] show ?thesis
    by (simp add: example_raises example_entries) (simp add: example_jobs)
qed


text \<open>
  Claim C3. A job whose weather model engine, or whose delay engine, raises a runtime
  failure ends its iteration without an exception: the failure is logged with the job's
  date, \<^verbatim>\<open>delay_dct\<close> is left as it was (the job is abandoned), and the only other traces are the
  engine calls made. The loop goes on with the next job; and a batch whose other jobs raise
  nothing returns normally.
\<close>

theorem runtime_failure_isolated:
  assumes "runtime_failure eng p dl_only t"
  shows "process_job eng p dl_only (t, w, f) s =
           (None,
            s\<lparr>logged := logged s @ job_debug t @ [LogDateFailed t],
              calls := calls s @ wm_call p dl_only t
                # (case wm_result eng p dl_only t of
                     Inl _ \<Rightarrow> [] | Inr file \<Rightarrow> [TropoDelay t file])\<rparr>)
     \<and> run_jobs eng p dl_only (pre @ (t, w, f) # post) s =
         (case run_jobs eng p dl_only pre s of
            (Some e, s') \<Rightarrow> (Some e, s')
          | (None, s') \<Rightarrow>
              run_jobs eng p dl_only post
                (s'\<lparr>logged := logged s' @ job_debug t @ [LogDateFailed t],
                    calls := calls s' @ wm_call p dl_only t
                      # (case wm_result eng p dl_only t of
                           Inl _ \<Rightarrow> [] | Inr file \<Rightarrow> [TropoDelay t file])\<rparr>))
     \<and> ((\<forall>job \<in> set (pre @ post). job_raises eng p dl_only job = None) \<longrightarrow>
          fst (run_jobs eng p dl_only (pre @ (t, w, f) # post) s) = None)"
proof (intro conjI impI)
  show body: "process_job eng p dl_only (t, w, f) s =
           (None,
            s\<lparr>logged := logged s @ job_debug t @ [LogDateFailed t],
              calls := calls s @ wm_call p dl_only t
                # (case wm_result eng p dl_only t of
                     Inl _ \<Rightarrow> [] | Inr file \<Rightarrow> [TropoDelay t file])\<rparr>)" for s
    by (rule runtime_failure_contained [OF assms])
  show "run_jobs eng p dl_only (pre @ (t, w, f) # post) s =
         (case run_jobs eng p dl_only pre s of
            (Some e, s') \<Rightarrow> (Some e, s')
          | (None, s') \<Rightarrow>
              run_jobs eng p dl_only post
                (s'\<lparr>logged := logged s' @ job_debug t @ [LogDateFailed t],
                    calls := calls s' @ wm_call p dl_only t
                      # (case wm_result eng p dl_only t of
                           Inl _ \<Rightarrow> [] | Inr file \<Rightarrow> [TropoDelay t file])\<rparr>))"
    by (simp add: run_jobs_append body split: prod.splits option.splits)
  have "job_raises eng p dl_only (t, w, f) = None"
    using body [of empty_batch] by (simp add: job_raises_def)
  moreover assume "\<forall>job \<in> set (pre @ post). job_raises eng p dl_only job = None"
  ultimately have "\<forall>job \<in> set (pre @ (t, w, f) # post). job_raises eng p dl_only job = None"
    by auto
  then show "fst (run_jobs eng p dl_only (pre @ (t, w, f) # post) s) = None"
    by (rule run_jobs_returns)
qed

theorem runtime_failure_isolated_witness:
  "runtime_failure example_engines example_params False (Datetime 2020 3 17 0 0 0)
   \<and> job_raises example_engines example_params False
        (Datetime 2020 3 5 0 0 0, ''20200305_wet_ztd.nc'', ''20200305_hydro_ztd.nc'') = None
   \<and> job_raises example_engines example_params False
        (Datetime 2020 3 29 0 0 0, ''20200329_wet_ztd.nc'', ''20200329_hydro_ztd.nc'') = None
   \<and> process_job example_engines example_params False
        (Datetime 2020 3 17 0 0 0, ''20200317_wet_ztd.nc'', ''20200317_hydro_ztd.nc'') empty_batch
       = (None,
          \<lparr>calls = [wm_call example_params False (Datetime 2020 3 17 0 0 0)],
           logged = job_debug (Datetime 2020 3 17 0 0 0) @ [LogDateFailed (Datetime 2020 3 17 0 0 0)],
           delay_dct = Map.empty\<rparr>)
   \<and> fst (run_jobs example_engines example_params False (jobs_of example_params) empty_batch)
       = None"
proof -
  let ?t = "Datetime 2020 3 17 0 0 0"
  let ?pre = "[(Datetime 2020 3 5 0 0 0, ''20200305_wet_ztd.nc'', ''20200305_hydro_ztd.nc'')]"
  let ?post = "[(Datetime 2020 3 29 0 0 0, ''20200329_wet_ztd.nc'', ''20200329_hydro_ztd.nc'')]"
  have failure: "runtime_failure example_engines example_params False ?t"
    by (simp add: runtime_failure_def example_wm)
  have others: "\<forall>job \<in> set (?pre @ ?post).
      job_raises example_engines example_params False job = None"
    by (simp add: example_raises)
  note inst = runtime_failure_isolated [OF failure, of "''20200317_wet_ztd.nc''"
      "''20200317_hydro_ztd.nc''" empty_batch ?pre ?post]
  from inst others
  have "fst (run_jobs example_engines example_params False
      (?pre @ (?t, ''20200317_wet_ztd.nc'', ''20200317_hydro_ztd.nc'') # ?post) empty_batch) = None"
    by blast
  then have returns: "fst (run_jobs example_engines example_params False (jobs_of example_params)
      empty_batch) = None"
    by (simp add: example_jobs)
  from inst have "process_job example_engines example_params False
        (?t, ''20200317_wet_ztd.nc'', ''20200317_hydro_ztd.nc'') empty_batch
       = (None,
          \<lparr>calls = [wm_call example_params False ?t],
           logged = job_debug ?t @ [LogDateFailed ?t],
           delay_dct = Map.empty\<rparr>)"
    by (simp add: empty_batch_def example_wm)
  with failure returns show ?thesis by (simp add: example_raises)
qed

section \<open>Download only\<close>

lemma process_job_download_only:
  "calls (snd (process_job eng p True job s)) = calls s @ [wm_call p True (fst job)]"
  "delay_dct (snd (process_job eng p True job s)) = delay_dct s"
proof -
  obtain t w f where job: "job = (t, w, f)" by (cases job)
  show "calls (snd (process_job eng p True job s)) = calls s @ [wm_call p True (fst job)]"
    unfolding job process_job_unfold Let_def by (auto split: sum.splits)
  show "delay_dct (snd (process_job eng p True job s)) = delay_dct s"
    unfolding job process_job_unfold Let_def by (auto split: sum.splits)
qed

lemma run_jobs_download_only_dct:
  "delay_dct (snd (run_jobs eng p True jobs s)) = delay_dct s"
proof (induction jobs arbitrary: s)
  case Nil
  then show ?case by simp
next
  case (Cons job jobs)
  obtain r s' where step: "process_job eng p True job s = (r, s')"
    by (cases "process_job eng p True job s")
  with process_job_download_only(2) [of eng p job s] have "delay_dct s' = delay_dct s" by simp
  with step Cons.IH [of s'] show ?case by (cases r) simp_all
qed

lemma run_jobs_download_only_calls:
  "prefix (calls (snd (run_jobs eng p True jobs s)))
     (calls s @ map (\<lambda>job. wm_call p True (fst job)) jobs)"
proof (induction jobs arbitrary: s)
  case Nil
  then show ?case by simp
next
  case (Cons job jobs)
  obtain r s' where step: "process_job eng p True job s = (r, s')"
    by (cases "process_job eng p True job s")
  with process_job_download_only(1) [of eng p job s]
  have s': "calls s' = calls s @ [wm_call p True (fst job)]" by simp
  show ?case
  proof (cases r)
    case (Some e)
    with step s' show ?thesis by simp
  next
    case None
    with step have "run_jobs eng p True (job # jobs) s = run_jobs eng p True jobs s'" by simp
    with Cons.IH [of s'] s' show ?thesis by simp
  qed
qed

lemma run_jobs_download_only_all_calls:
  "fst (run_jobs eng p True jobs s) = None \<Longrightarrow>
     calls (snd (run_jobs eng p True jobs s))
       = calls s @ map (\<lambda>job. wm_call p True (fst job)) jobs"
proof (induction jobs arbitrary: s)
  case Nil
  then show ?case by simp
next
  case (Cons job jobs)
  obtain r s' where step: "process_job eng p True job s = (r, s')"
    by (cases "process_job eng p True job s")
  with process_job_download_only(1) [of eng p job s]
  have s': "calls s' = calls s @ [wm_call p True (fst job)]" by simp
  show ?case
  proof (cases r)
    case (Some e)
    with step Cons.prems show ?thesis by simp
  next
    case None
    with step have run: "run_jobs eng p True (job # jobs) s = run_jobs eng p True jobs s'" by simp
    with Cons.prems have "fst (run_jobs eng p True jobs s') = None" by simp
    from Cons.IH [OF this] s' run show ?thesis by simp
  qed
qed

lemma calcDelays_verbose:
  "verbose p \<Longrightarrow>
     calcDelays eng p args_download_only = calcDelays_loop eng p (dl_only_of p args_download_only)"
  by (simp add: calcDelays_def Let_def)

lemma calcDelays_not_verbose:
  "\<not> verbose p \<Longrightarrow> calcDelays eng p args_download_only = (Inl (NameError ''logging''), empty_batch)"
  by (simp add: calcDelays_def Let_def)

text \<open>
  The loop under download only. When \<^verbatim>\<open>download_only\<close> is set in the parameters or on the
  command line, \<^verbatim>\<open>dl_only\<close> is true; the loop then never stores into \<^verbatim>\<open>delay_dct\<close>, and the calls
  it makes are weather model calls for the jobs in input order and nothing else (no call of
  the delay engine, none of a writer), also when an exception leaves the loop. When no job
  raises anything but a runtime failure, the loop returns the empty mapping and has called
  the weather model engine once for every job. For verbose parameters \<^verbatim>\<open>calcDelays\<close> is this
  loop.
\<close>

theorem download_only_batch:
  "download_only p \<or> args_download_only \<longrightarrow>
     dl_only_of p args_download_only = True
     \<and> delay_dct (snd (calcDelays_loop eng p (dl_only_of p args_download_only))) = Map.empty
     \<and> prefix (calls (snd (calcDelays_loop eng p (dl_only_of p args_download_only))))
         (map (\<lambda>job. wm_call p True (fst job)) (jobs_of p))
     \<and> ((\<forall>job \<in> set (jobs_of p). job_raises eng p True job = None) \<longrightarrow>
          fst (calcDelays_loop eng p (dl_only_of p args_download_only)) = Inr Map.empty
          \<and> calls (snd (calcDelays_loop eng p (dl_only_of p args_download_only)))
              = map (\<lambda>job. wm_call p True (fst job)) (jobs_of p))
     \<and> (verbose p \<longrightarrow>
          calcDelays eng p args_download_only
            = calcDelays_loop eng p (dl_only_of p args_download_only))"
proof (intro impI)
  assume flag: "download_only p \<or> args_download_only"
  then have dl: "dl_only_of p args_download_only = True"
    by (simp add: dl_only_of_def)
  obtain r s where run: "run_jobs eng p True (jobs_of p) empty_batch = (r, s)"
    by (cases "run_jobs eng p True (jobs_of p) empty_batch")
  have snd_loop: "snd (calcDelays_loop eng p True) = s"
    using run by (simp add: calcDelays_loop_def split: option.splits)
  have dct: "delay_dct s = Map.empty"
    using run_jobs_download_only_dct [of eng p "jobs_of p" empty_batch] run
    by (simp add: empty_batch_def)
  have pre: "prefix (calls s) (map (\<lambda>job. wm_call p True (fst job)) (jobs_of p))"
    using run_jobs_download_only_calls [of eng p "jobs_of p" empty_batch] run
    by (simp add: empty_batch_def)
  have all: "fst (calcDelays_loop eng p True) = Inr Map.empty
      \<and> calls s = map (\<lambda>job. wm_call p True (fst job)) (jobs_of p)"
    if ok: "\<forall>job \<in> set (jobs_of p). job_raises eng p True job = None"
  proof -
    from run_jobs_returns [OF ok, of empty_batch] run have r: "r = None" by simp
    with run_jobs_download_only_all_calls [of eng p "jobs_of p" empty_batch] run
    have "calls s = map (\<lambda>job. wm_call p True (fst job)) (jobs_of p)"
      by (simp add: empty_batch_def)
    moreover from r run dct have "fst (calcDelays_loop eng p True) = Inr Map.empty"
      by (simp add: calcDelays_loop_def)
    ultimately show ?thesis by simp
  qed
  have link: "verbose p \<longrightarrow>
      calcDelays eng p args_download_only = calcDelays_loop eng p True"
    using calcDelays_verbose [of p eng args_download_only] dl by simp
  from dl have eq: "calcDelays_loop eng p (dl_only_of p args_download_only)
      = calcDelays_loop eng p True" by simp
  show "dl_only_of p args_download_only = True
     \<and> delay_dct (snd (calcDelays_loop eng p (dl_only_of p args_download_only))) = Map.empty
     \<and> prefix (calls (snd (calcDelays_loop eng p (dl_only_of p args_download_only))))
         (map (\<lambda>job. wm_call p True (fst job)) (jobs_of p))
     \<and> ((\<forall>job \<in> set (jobs_of p). job_raises eng p True job = None) \<longrightarrow>
          fst (calcDelays_loop eng p (dl_only_of p args_download_only)) = Inr Map.empty
          \<and> calls (snd (calcDelays_loop eng p (dl_only_of p args_download_only)))
              = map (\<lambda>job. wm_call p True (fst job)) (jobs_of p))
     \<and> (verbose p \<longrightarrow>
          calcDelays eng p args_download_only
            = calcDelays_loop eng p (dl_only_of p args_download_only))"
    unfolding eq snd_loop using dl dct pre all link by blast
qed

theorem download_only_batch_witness:
  "(download_only example_params \<or> True)
   \<and> job_raises example_engines example_params True
        (Datetime 2020 3 5 0 0 0, ''20200305_wet_ztd.nc'', ''20200305_hydro_ztd.nc'') = None
   \<and> job_raises example_engines example_params True
        (Datetime 2020 3 17 0 0 0, ''20200317_wet_ztd.nc'', ''20200317_hydro_ztd.nc'') = None
   \<and> job_raises example_engines example_params True
        (Datetime 2020 3 29 0 0 0, ''20200329_wet_ztd.nc'', ''20200329_hydro_ztd.nc'') = None
   \<and> verbose example_params
   \<and> fst (calcDelays example_engines example_params True) = Inr Map.empty
   \<and> calls (snd (calcDelays example_engines example_params True))
       = [wm_call example_params True (Datetime 2020 3 5 0 0 0),
          wm_call example_params True (Datetime 2020 3 17 0 0 0),
          wm_call example_params True (Datetime 2020 3 29 0 0 0)]"
proof -
  have ok: "\<forall>job \<in> set (jobs_of example_params).
      job_raises example_engines example_params True job = None"
    by (simp add: example_raises)
  have v: "verbose example_params" by (simp add: example_params_def)
  have dl: "dl_only_of example_params True = True" by (simp add: dl_only_of_def)
  have flag: "download_only example_params \<or> True" by simp
  from download_only_batch [of example_params True example_engines] flag ok v
  have "fst (calcDelays example_engines example_params True) = Inr Map.empty
      \<and> calls (snd (calcDelays example_engines example_params True))
          = map (\<lambda>job. wm_call example_params True (fst job)) (jobs_of example_params)"
    unfolding dl by metis
  then have "fst (calcDelays example_engines example_params True) = Inr Map.empty
      \<and> calls (snd (calcDelays example_engines example_params True))
       = [wm_call example_params True (Datetime 2020 3 5 0 0 0),
          wm_call example_params True (Datetime 2020 3 17 0 0 0),
          wm_call example_params True (Datetime 2020 3 29 0 0 0)]"
    by (simp add: example_jobs)
  with v show ?thesis by (simp add: example_raises)
qed

text \<open>
  Claim C10, at the input where it fails. With \<^verbatim>\<open>download_only\<close> set and \<^verbatim>\<open>verbose\<close> false in the
  parameters of a batch of three jobs, \<^verbatim>\<open>calcDelays\<close> raises \<^verbatim>\<open>NameError\<close> at line 177
  (\<^verbatim>\<open>logging\<close> is never imported) before the loop: the weather model engine is called for no
  job, nothing is logged, and no mapping is returned.
\<close>

theorem calcDelays_download_only_not_verbose:
  "download_only (example_params\<lparr>verbose := False, download_only := True\<rparr>)
   \<and> length (jobs_of (example_params\<lparr>verbose := False, download_only := True\<rparr>)) = 3
   \<and> calcDelays example_engines (example_params\<lparr>verbose := False, download_only := True\<rparr>) False
       = (Inl (NameError ''logging''), \<lparr>calls = [], logged = [], delay_dct = Map.empty\<rparr>)"
  by (simp add: calcDelays_def Let_def jobs_of_def example_params_def empty_batch_def)

section \<open>Replacing tokens in file names\<close>

lemma py_replace_absent:
  "u \<notin> set s \<Longrightarrow> py_replace (u # old) new s = s"
  by (induction s) auto

lemma py_replace_match:
  "py_replace (u # old) new ((u # old) @ zs) = new @ py_replace (u # old) new zs"
  by simp

lemma py_replace_nomatch:
  "\<not> prefix (u # old) (c # cs) \<Longrightarrow>
     py_replace (u # old) new (c # cs) = c # py_replace (u # old) new cs"
  by auto

lemma prefix_nth: "prefix xs ys \<Longrightarrow> i < length xs \<Longrightarrow> xs ! i = ys ! i"
  by (auto simp: prefix_def nth_append)

lemma prefix_token_append:
  assumes "u \<notin> set old" and "\<not> prefix (u # old) (c # cs)"
  shows "\<not> prefix (u # old) ((c # cs) @ u # old @ rest)"
proof
  assume p: "prefix (u # old) ((c # cs) @ u # old @ rest)"
  from p have c: "c = u" by simp
  from p have q: "prefix old (cs @ u # old @ rest)" by auto
  show False
  proof (cases "length old \<le> length cs")
    case True
    have "prefix cs (cs @ u # old @ rest)" by simp
    with q have "prefix old cs" using True by (rule prefix_length_prefix)
    with c assms(2) show False by simp
  next
    case False
    then have len: "length cs < length old" by simp
    from prefix_nth [OF q len] have "old ! length cs = u" by simp
    with len assms(1) show False using nth_mem by fastforce
  qed
qed

lemma py_replace_token:
  assumes "u \<notin> set old"
  shows "py_replace (u # old) new (stem @ u # old @ rest)
           = py_replace (u # old) new stem @ new @ py_replace (u # old) new rest"
proof (induction stem rule: length_induct)
  case (1 stem)
  show ?case
  proof (cases stem)
    case Nil
    have "py_replace (u # old) new ((u # old) @ rest) = new @ py_replace (u # old) new rest"
      by (rule py_replace_match)
    with Nil show ?thesis by simp
  next
    case (Cons c cs)
    show ?thesis
    proof (cases "prefix (u # old) (c # cs)")
      case True
      then obtain zs where zs: "c # cs = (u # old) @ zs" by (auto simp: prefix_def)
      have short: "length zs < length stem"
        unfolding Cons zs by simp
      have "stem @ u # old @ rest = (u # old) @ (zs @ u # old @ rest)"
        unfolding Cons zs by simp
      then have "py_replace (u # old) new (stem @ u # old @ rest)
          = new @ py_replace (u # old) new (zs @ u # old @ rest)"
        by (simp only: py_replace_match)
      also have "\<dots> = new @ py_replace (u # old) new zs @ new @ py_replace (u # old) new rest"
        using 1 short by simp
      finally have whole: "py_replace (u # old) new (stem @ u # old @ rest)
          = new @ py_replace (u # old) new zs @ new @ py_replace (u # old) new rest" .
      have "py_replace (u # old) new stem = new @ py_replace (u # old) new zs"
        unfolding Cons zs by (simp only: py_replace_match)
      with whole show ?thesis by simp
    next
      case False
      from prefix_token_append [OF assms False]
      have np: "\<not> prefix (u # old) (c # (cs @ u # old @ rest))" by simp
      have "py_replace (u # old) new (stem @ u # old @ rest)
          = c # py_replace (u # old) new (cs @ u # old @ rest)"
        unfolding Cons using py_replace_nomatch [OF np] by simp
      also have "\<dots> = c # py_replace (u # old) new cs @ new @ py_replace (u # old) new rest"
        using 1 Cons by simp
      finally have whole: "py_replace (u # old) new (stem @ u # old @ rest)
          = c # py_replace (u # old) new cs @ new @ py_replace (u # old) new rest" .
      have "py_replace (u # old) new stem = c # py_replace (u # old) new cs"
        unfolding Cons using py_replace_nomatch [OF False] by simp
      with whole show ?thesis by simp
    qed
  qed
qed

lemma prefix_suffix_disjoint:
  assumes "set t \<inter> set (u # old) = {}" and "\<not> prefix (u # old) (c # cs)"
  shows "\<not> prefix (u # old) ((c # cs) @ t)"
proof
  assume p: "prefix (u # old) ((c # cs) @ t)"
  show False
  proof (cases "length (u # old) \<le> length (c # cs)")
    case True
    have "prefix (c # cs) ((c # cs) @ t)" by simp
    with p have "prefix (u # old) (c # cs)" using True by (rule prefix_length_prefix)
    with assms(2) show False by simp
  next
    case False
    then have len: "length (c # cs) < length (u # old)" by simp
    from p have "length (u # old) \<le> length ((c # cs) @ t)" by (rule prefix_length_le)
    with len have t: "0 < length t" by (cases t) auto
    from prefix_nth [OF p len] have "(u # old) ! length (c # cs) = t ! 0"
      by (simp add: nth_append)
    moreover have "(u # old) ! length (c # cs) \<in> set (u # old)" using len by (rule nth_mem)
    moreover have "t ! 0 \<in> set t" using t by (rule nth_mem)
    ultimately show False using assms(1) by auto
  qed
qed

lemma py_replace_keeps_suffix:
  assumes "set t \<inter> set (u # old) = {}"
  shows "py_replace (u # old) new (s @ t) = py_replace (u # old) new s @ t"
proof (induction s rule: length_induct)
  case (1 s)
  show ?case
  proof (cases s)
    case Nil
    from assms have "u \<notin> set t" by auto
    then show ?thesis using Nil by (simp add: py_replace_absent)
  next
    case (Cons c cs)
    show ?thesis
    proof (cases "prefix (u # old) (c # cs)")
      case True
      then obtain zs where zs: "c # cs = (u # old) @ zs" by (auto simp: prefix_def)
      have short: "length zs < length s" unfolding Cons zs by simp
      have "s @ t = (u # old) @ (zs @ t)" unfolding Cons zs by simp
      then have "py_replace (u # old) new (s @ t) = new @ py_replace (u # old) new (zs @ t)"
        by (simp only: py_replace_match)
      also have "\<dots> = new @ py_replace (u # old) new zs @ t"
        using 1 short by simp
      finally have whole: "py_replace (u # old) new (s @ t)
          = new @ py_replace (u # old) new zs @ t" .
      have "py_replace (u # old) new s = new @ py_replace (u # old) new zs"
        unfolding Cons zs by (simp only: py_replace_match)
      with whole show ?thesis by simp
    next
      case False
      from prefix_suffix_disjoint [OF assms False]
      have np: "\<not> prefix (u # old) (c # (cs @ t))" by simp
      have "py_replace (u # old) new (s @ t) = c # py_replace (u # old) new (cs @ t)"
        unfolding Cons using py_replace_nomatch [OF np] by simp
      also have "\<dots> = c # py_replace (u # old) new cs @ t"
        using 1 Cons by simp
      finally have whole: "py_replace (u # old) new (s @ t)
          = c # py_replace (u # old) new cs @ t" .
      have "py_replace (u # old) new s = c # py_replace (u # old) new cs"
        unfolding Cons using py_replace_nomatch [OF False] by simp
      with whole show ?thesis by simp
    qed
  qed
qed

lemma splitext_append: "fst (splitext p) @ snd (splitext p) = p"
  by (simp add: splitext_def Let_def)

lemma endswith_append: "endswith (s @ suf) suf"
  by (simp add: endswith_def suffix_def)

lemma cube_filename_shape:
  "cube_filename out_filename =
     py_replace ''wet'' ''tropo'' (fst (splitext out_filename))
       @ (if snd (splitext out_filename) = ''.h5'' then ''.h5'' else ''.nc'')"
proof -
  have nc: "py_replace ''wet'' ''tropo'' (r @ ''.nc'') = py_replace ''wet'' ''tropo'' r @ ''.nc''" for r
    by (rule py_replace_keeps_suffix) simp
  have h5: "py_replace ''wet'' ''tropo'' (r @ ''.h5'') = py_replace ''wet'' ''tropo'' r @ ''.h5''" for r
    by (rule py_replace_keeps_suffix) simp
  show ?thesis
  proof (cases "snd (splitext out_filename) = ''.h5''")
    case True
    with splitext_append [of out_filename]
    have "out_filename = fst (splitext out_filename) @ ''.h5''" by simp
    then have "py_replace ''wet'' ''tropo'' out_filename
        = py_replace ''wet'' ''tropo'' (fst (splitext out_filename)) @ ''.h5''"
      using h5 [of "fst (splitext out_filename)"] by simp
    with True show ?thesis by (simp add: cube_filename_def Let_def)
  next
    case False
    show ?thesis
    proof (cases "snd (splitext out_filename) = ''.nc''")
      case True
      with splitext_append [of out_filename]
      have "out_filename = fst (splitext out_filename) @ ''.nc''" by simp
      then have "py_replace ''wet'' ''tropo'' out_filename
          = py_replace ''wet'' ''tropo'' (fst (splitext out_filename)) @ ''.nc''"
        using nc [of "fst (splitext out_filename)"] by simp
      with True show ?thesis by (simp add: cube_filename_def Let_def)
    next
      case notnc: False
      with False show ?thesis
        using nc [of "fst (splitext out_filename)"] by (simp add: cube_filename_def Let_def)
    qed
  qed
qed

lemma write_cube_selected:
  "write_cube eng ds (cube_filename out_filename) s =
     (let out = cube_filename out_filename;
          writer = (if snd (splitext out_filename) = ''.h5'' then H5NetCDF else NetCDF);
          s1 = s\<lparr>calls := calls s @ [ToNetcdf out writer]\<rparr>
      in case to_netcdf eng ds out writer of
           Some e \<Rightarrow> (Some e, s1)
         | None \<Rightarrow> (None, s1\<lparr>logged := logged s1 @ [LogInfo ''Wrote delays to: %s'' out]\<rparr>))"
proof (cases "snd (splitext out_filename) = ''.h5''")
  case True
  then have shape: "cube_filename out_filename
      = py_replace ''wet'' ''tropo'' (fst (splitext out_filename)) @ ''.h5''"
    by (simp add: cube_filename_shape)
  have yes: "endswith (cube_filename out_filename) ''.h5''"
    unfolding shape by (rule endswith_append)
  have no: "\<not> endswith (cube_filename out_filename) ''.nc''"
    unfolding shape by (simp add: endswith_def suffix_def)
  show ?thesis using True yes no
    by (simp add: write_cube_def Let_def split: option.splits)
next
  case False
  then have shape: "cube_filename out_filename
      = py_replace ''wet'' ''tropo'' (fst (splitext out_filename)) @ ''.nc''"
    by (simp add: cube_filename_shape)
  have yes: "endswith (cube_filename out_filename) ''.nc''"
    unfolding shape by (rule endswith_append)
  show ?thesis using False yes
    by (simp add: write_cube_def Let_def split: option.splits)
qed

section \<open>Output names\<close>

lemma suffix_token_replaced:
  assumes "u \<notin> set old" and "u \<notin> set ext"
  shows "py_replace (u # old) new (stem @ (u # old) @ ext)
           = py_replace (u # old) new stem @ new @ ext"
  using py_replace_token [OF assms(1), of new stem ext] py_replace_absent [OF assms(2), of old new]
  by simp


text \<open>
  Claim C8. The two output names by line-of-sight mode: in projected mode \<^verbatim>\<open>_ztd\<close> is replaced
  by \<^verbatim>\<open>_std\<close> in both names; otherwise, in ray-traced mode, \<^verbatim>\<open>_std\<close> is replaced by \<^verbatim>\<open>_ray\<close> in
  both; otherwise (zenith) both names are unchanged. The replacement is that of \<^verbatim>\<open>str.replace\<close>;
  in a name that ends with the token and an extension free of underscores it replaces the
  token before the extension and keeps the extension. In projected mode \<^verbatim>\<open>20200101_ztd.h5\<close>
  becomes \<^verbatim>\<open>20200101_std.h5\<close> (both names); in ray-traced mode \<^verbatim>\<open>20200101_std.nc\<close> becomes
  \<^verbatim>\<open>20200101_ray.nc\<close>.
\<close>

theorem los_filenames_by_mode:
  "los_filenames l w f =
     (if is_Projected l then (py_replace ''_ztd'' ''_std'' w, py_replace ''_ztd'' ''_std'' f)
      else if ray_trace l then (py_replace ''_std'' ''_ray'' w, py_replace ''_std'' ''_ray'' f)
      else (w, f))
   \<and> (is_Projected l \<and> CHR ''_'' \<notin> set ext \<and> CHR ''_'' \<notin> set ext' \<longrightarrow>
        los_filenames l (stem @ ''_ztd'' @ ext) (stem' @ ''_ztd'' @ ext')
          = (py_replace ''_ztd'' ''_std'' stem @ ''_std'' @ ext,
             py_replace ''_ztd'' ''_std'' stem' @ ''_std'' @ ext'))
   \<and> (\<not> is_Projected l \<and> ray_trace l \<and> CHR ''_'' \<notin> set ext \<and> CHR ''_'' \<notin> set ext' \<longrightarrow>
        los_filenames l (stem @ ''_std'' @ ext) (stem' @ ''_std'' @ ext')
          = (py_replace ''_std'' ''_ray'' stem @ ''_ray'' @ ext,
             py_replace ''_std'' ''_ray'' stem' @ ''_ray'' @ ext'))
   \<and> (\<not> is_Projected l \<and> \<not> ray_trace l \<longrightarrow> los_filenames l w f = (w, f))
   \<and> (is_Projected l \<longrightarrow>
        los_filenames l ''20200101_ztd.h5'' ''20200101_ztd.h5''
          = (''20200101_std.h5'', ''20200101_std.h5''))
   \<and> (\<not> is_Projected l \<and> ray_trace l \<longrightarrow>
        los_filenames l ''20200101_std.nc'' ''20200101_std.nc''
          = (''20200101_ray.nc'', ''20200101_ray.nc''))"
proof -
  have ztd: "py_replace ''_ztd'' ''_std'' (s @ ''_ztd'' @ e) = py_replace ''_ztd'' ''_std'' s @ ''_std'' @ e"
    if "CHR ''_'' \<notin> set e" for s e
    using suffix_token_replaced [of "CHR ''_''" "''ztd''" e "''_std''" s] that by simp
  have std: "py_replace ''_std'' ''_ray'' (s @ ''_std'' @ e) = py_replace ''_std'' ''_ray'' s @ ''_ray'' @ e"
    if "CHR ''_'' \<notin> set e" for s e
    using suffix_token_replaced [of "CHR ''_''" "''std''" e "''_ray''" s] that by simp
  have ex1: "py_replace ''_ztd'' ''_std'' ''20200101_ztd.h5'' = ''20200101_std.h5''" by simp
  have ex2: "py_replace ''_std'' ''_ray'' ''20200101_std.nc'' = ''20200101_ray.nc''" by simp
  show ?thesis
    using ztd std by (simp add: los_filenames_def ex1 ex2)
qed

theorem los_filenames_by_mode_witness:
  "is_Projected \<lparr>is_Projected = True, ray_trace = False\<rparr>
   \<and> CHR ''_'' \<notin> set ''.h5''
   \<and> los_filenames \<lparr>is_Projected = True, ray_trace = False\<rparr>
        (''20200101'' @ ''_ztd'' @ ''.h5'') (''20200101'' @ ''_ztd'' @ ''.h5'')
       = (''20200101_std.h5'', ''20200101_std.h5'')
   \<and> \<not> is_Projected \<lparr>is_Projected = False, ray_trace = True\<rparr>
   \<and> ray_trace \<lparr>is_Projected = False, ray_trace = True\<rparr>
   \<and> CHR ''_'' \<notin> set ''.nc''
   \<and> los_filenames \<lparr>is_Projected = False, ray_trace = True\<rparr>
        (''20200101'' @ ''_std'' @ ''.nc'') (''20200101'' @ ''_std'' @ ''.nc'')
       = (''20200101_ray.nc'', ''20200101_ray.nc'')
   \<and> los_filenames \<lparr>is_Projected = False, ray_trace = False\<rparr> ''20200101_ztd.h5'' ''20200101_ztd.h5''
       = (''20200101_ztd.h5'', ''20200101_ztd.h5'')"
proof -
  have stem: "py_replace ''_ztd'' ''_std'' ''20200101'' = ''20200101''"
    "py_replace ''_std'' ''_ray'' ''20200101'' = ''20200101''"
    by simp_all
  have h5: "CHR ''_'' \<notin> set ''.h5''" and nc: "CHR ''_'' \<notin> set ''.nc''" by simp_all
  from los_filenames_by_mode [of "\<lparr>is_Projected = True, ray_trace = False\<rparr>" _ _ "''.h5''" "''.h5''"
      "''20200101''" "''20200101''"] h5
  have p: "los_filenames \<lparr>is_Projected = True, ray_trace = False\<rparr>
        (''20200101'' @ ''_ztd'' @ ''.h5'') (''20200101'' @ ''_ztd'' @ ''.h5'')
       = (py_replace ''_ztd'' ''_std'' ''20200101'' @ ''_std'' @ ''.h5'',
          py_replace ''_ztd'' ''_std'' ''20200101'' @ ''_std'' @ ''.h5'')"
    by simp
  from los_filenames_by_mode [of "\<lparr>is_Projected = False, ray_trace = True\<rparr>" _ _ "''.nc''" "''.nc''"
      "''20200101''" "''20200101''"] nc
  have r: "los_filenames \<lparr>is_Projected = False, ray_trace = True\<rparr>
        (''20200101'' @ ''_std'' @ ''.nc'') (''20200101'' @ ''_std'' @ ''.nc'')
       = (py_replace ''_std'' ''_ray'' ''20200101'' @ ''_ray'' @ ''.nc'',
          py_replace ''_std'' ''_ray'' ''20200101'' @ ''_ray'' @ ''.nc'')"
    by simp
  from los_filenames_by_mode [of "\<lparr>is_Projected = False, ray_trace = False\<rparr>"
      "''20200101_ztd.h5''" "''20200101_ztd.h5''"]
  have z: "los_filenames \<lparr>is_Projected = False, ray_trace = False\<rparr> ''20200101_ztd.h5'' ''20200101_ztd.h5''
       = (''20200101_ztd.h5'', ''20200101_ztd.h5'')"
    by simp
  from p r z show ?thesis unfolding stem by simp
qed

lemma tif_name: "cube_filename ''20200101_wet.tif'' = ''20200101_tropo.nc''"
  by (simp add: cube_filename_def splitext_def rfind_def Let_def upt_rec)

lemma tif_ext: "snd (splitext ''20200101_wet.tif'') = ''.tif''"
  by (simp add: splitext_def rfind_def Let_def upt_rec)

lemma tif_los: "fst (los_filenames l ''20200101_wet.tif'' f) = ''20200101_wet.tif''"
  by (simp add: los_filenames_def)


text \<open>
  Claim C9. When the hydrostatic result is absent, the name of the cube file is the wet
  name (after the line-of-sight renaming) with \<^verbatim>\<open>wet\<close> replaced by \<^verbatim>\<open>tropo\<close> in its root, and with
  its extension kept if that is \<^verbatim>\<open>.h5\<close> or \<^verbatim>\<open>.nc\<close> and replaced by \<^verbatim>\<open>.nc\<close> otherwise. The cube is
  written once, under that name, by the writer of the resulting extension; unless the writer
  raises, the name is logged and stored in \<^verbatim>\<open>delay_dct\<close> with the hydrostatic name. The wet name
  \<^verbatim>\<open>20200101_wet.tif\<close> becomes \<^verbatim>\<open>20200101_tropo.nc\<close>, written by the \<^verbatim>\<open>.nc\<close> writer.
\<close>

theorem cube_output_routing:
  "cube_filename out_filename =
      py_replace ''wet'' ''tropo'' (fst (splitext out_filename))
        @ (if snd (splitext out_filename) = ''.h5'' then ''.h5'' else ''.nc'')
   \<and> route eng p t w f wet_delay None s =
       (let out_filename = fst (los_filenames (los p) w f);
            out = cube_filename out_filename;
            writer = (if snd (splitext out_filename) = ''.h5'' then H5NetCDF else NetCDF);
            s1 = s\<lparr>calls := calls s @ [ToNetcdf out writer]\<rparr>
        in case to_netcdf eng wet_delay out writer of
             Some e \<Rightarrow> (Some e, s1)
           | None \<Rightarrow>
               (None, s1\<lparr>logged := logged s1 @ [LogInfo ''Wrote delays to: %s'' out],
                         delay_dct := (delay_dct s1)(t \<mapsto> (out, snd (los_filenames (los p) w f)))\<rparr>))
   \<and> cube_filename ''20200101_wet.tif'' = ''20200101_tropo.nc''
   \<and> (to_netcdf eng wet_delay ''20200101_tropo.nc'' NetCDF = None \<longrightarrow>
        route eng p t ''20200101_wet.tif'' f wet_delay None s =
          (None,
           s\<lparr>calls := calls s @ [ToNetcdf ''20200101_tropo.nc'' NetCDF],
             logged := logged s @ [LogInfo ''Wrote delays to: %s'' ''20200101_tropo.nc''],
             delay_dct := (delay_dct s)(t \<mapsto> (''20200101_tropo.nc'',
                 snd (los_filenames (los p) ''20200101_wet.tif'' f)))\<rparr>))"
proof -
  have general: "route eng p t w f wet_delay None s =
       (let out_filename = fst (los_filenames (los p) w f);
            out = cube_filename out_filename;
            writer = (if snd (splitext out_filename) = ''.h5'' then H5NetCDF else NetCDF);
            s1 = s\<lparr>calls := calls s @ [ToNetcdf out writer]\<rparr>
        in case to_netcdf eng wet_delay out writer of
             Some e \<Rightarrow> (Some e, s1)
           | None \<Rightarrow>
               (None, s1\<lparr>logged := logged s1 @ [LogInfo ''Wrote delays to: %s'' out],
                         delay_dct := (delay_dct s1)(t \<mapsto> (out, snd (los_filenames (los p) w f)))\<rparr>))"
    for w
    by (simp add: route_def write_cube_selected Let_def split: prod.splits option.splits)
  have example: "route eng p t ''20200101_wet.tif'' f wet_delay None s =
          (None,
           s\<lparr>calls := calls s @ [ToNetcdf ''20200101_tropo.nc'' NetCDF],
             logged := logged s @ [LogInfo ''Wrote delays to: %s'' ''20200101_tropo.nc''],
             delay_dct := (delay_dct s)(t \<mapsto> (''20200101_tropo.nc'',
                 snd (los_filenames (los p) ''20200101_wet.tif'' f)))\<rparr>)"
    if "to_netcdf eng wet_delay ''20200101_tropo.nc'' NetCDF = None"
    using that by (simp add: general [of "''20200101_wet.tif''"] tif_los tif_name tif_ext Let_def)
  from cube_filename_shape [of out_filename] general [of w] tif_name example
  show ?thesis by blast
qed

theorem cube_output_routing_witness:
  "to_netcdf example_engines [1, 2, 3] ''20200101_tropo.nc'' NetCDF = None
   \<and> route example_engines example_params (Datetime 2020 3 5 0 0 0) ''20200101_wet.tif''
        ''20200101_hydro.tif'' [1, 2, 3] None empty_batch
       = (None,
          \<lparr>calls = [ToNetcdf ''20200101_tropo.nc'' NetCDF],
           logged = [LogInfo ''Wrote delays to: %s'' ''20200101_tropo.nc''],
           delay_dct = [Datetime 2020 3 5 0 0 0 \<mapsto> (''20200101_tropo.nc'', ''20200101_hydro.tif'')]\<rparr>)"
proof -
  have w: "to_netcdf example_engines [1, 2, 3] ''20200101_tropo.nc'' NetCDF = None"
    by (simp add: example_engines_def)
  have f: "snd (los_filenames (los example_params) ''20200101_wet.tif'' ''20200101_hydro.tif'')
      = ''20200101_hydro.tif''"
    by (simp add: los_filenames_def example_params_def)
  from cube_output_routing [of _ example_engines example_params "Datetime 2020 3 5 0 0 0" _
      "''20200101_hydro.tif''" "[1, 2, 3]" empty_batch] w
  have "route example_engines example_params (Datetime 2020 3 5 0 0 0) ''20200101_wet.tif''
        ''20200101_hydro.tif'' [1, 2, 3] None empty_batch
       = (None,
          empty_batch\<lparr>calls := calls empty_batch @ [ToNetcdf ''20200101_tropo.nc'' NetCDF],
             logged := logged empty_batch @ [LogInfo ''Wrote delays to: %s'' ''20200101_tropo.nc''],
             delay_dct := (delay_dct empty_batch)(Datetime 2020 3 5 0 0 0 \<mapsto> (''20200101_tropo.nc'',
                 snd (los_filenames (los example_params) ''20200101_wet.tif'' ''20200101_hydro.tif'')))\<rparr>)"
    by blast
  with w f show ?thesis by (simp add: empty_batch_def)
qed

end
